theory Spec2Isabelle
  imports Complex_Main "HOL-Library.Word"
begin

unbundle bit_operations_syntax

section \<open>Machine types, error numbers and the observable trace\<close>

text \<open>
  The supervisor of nsjail (\<open>subproc.cc\<close>) and its cgroup v2 driver (\<open>cgroup2.cc\<close>) are
  embedded as state-passing functions over a \<open>world\<close>: the part of the kernel and of the
  file system the code talks to, the C library's \<open>errno\<close>, and a chronological trace of
  what the code did (log lines, file operations, registry updates).

  Integer types follow the casts of the source: \<open>size_t\<close> and \<open>ssize_t\<close> are 64-bit words
  (\<open>ssize_t\<close> read through \<open>sint\<close>), \<open>unsigned int\<close> is a 32-bit word, \<open>uint64_t\<close> a 64-bit
  word. A \<open>pid_t\<close>, an \<open>int\<close> return value and a \<open>long long\<close> accounting value are \<open>int\<close>;
  the range of \<open>long long\<close> is written out where \<open>strtoll\<close> clamps.
\<close>

type_synonym pid_t = int
type_synonym size_t = "64 word"
type_synonym ssize_t = "64 word"
type_synonym uint = "32 word"
type_synonym uint64_t = "64 word"
type_synonym long = "64 word"
type_synonym double = rat

definition ENOENT :: int where "ENOENT = 2"
definition ECHILD :: int where "ECHILD = 10"
definition EACCES :: int where "EACCES = 13"
definition EBUSY :: int where "EBUSY = 16"
definition EEXIST :: int where "EEXIST = 17"
definition EINVAL :: int where "EINVAL = 22"
definition ERANGE :: int where "ERANGE = 34"
definition ENOSYS :: int where "ENOSYS = 38"

definition LLONG_MAX :: int where "LLONG_MAX = 2 ^ 63 - 1"
definition LLONG_MIN :: int where "LLONG_MIN = - (2 ^ 63)"

datatype level = LD | LI | LW | LE | LF

text \<open>
  How a reaped child ended, as the reaper's \<open>LOG_I\<close> line reports it (\<open>reapProc\<close>).
\<close>

datatype death =
    Exited int
  | CpuSoftLimit
  | CpuHardLimit
  | KilledBySigkill
  | TerminatedBySignal int

text \<open>
  The trace. \<open>Log\<close> is a diagnostic line (its level and an abbreviation of its format
  string); \<open>Stats\<close> is the line \<open>Cgroup Stats: CPU_usec=.. MEM_peak_bytes=.. (user=..,
  system=..)\<close> with its four values in that order; \<open>Report\<close> is the reaper's line about a
  child's end. The others are system calls, calls of the C library on the stream opened
  on a path (\<open>Fgets\<close> is one call of \<open>fgets\<close>, whatever it returns), and updates of the
  registry (\<open>Erase\<close> is \<open>nsjconf->pids.erase(pid)\<close>).
\<close>

datatype event =
    Log level string
  | Stats int int int int
  | Report pid_t death
  | Mkdir string
  | WriteFile string string
  | Fopen string
  | Fgets string
  | Fclose string
  | Rmdir string
  | CloseFd int
  | Erase pid_t
  | Clone3 uint64_t
  | Clone uint64_t
  | V1Finish pid_t

record world =
  dirs :: "string set"
  files :: "string \<rightharpoonup> string"
  cg_root :: string
  subtree :: "string list"
  mkdir_err :: "string \<Rightarrow> int"
  rmdir_err :: "string \<Rightarrow> int"
  open_err :: "string \<Rightarrow> int"
  read_err :: "string \<Rightarrow> bool"
  write_errs :: "string \<Rightarrow> int list"
  strtoll_einval :: bool
  self_pid :: pid_t
  errno :: int
  trace :: "event list"

text \<open>
  \<open>dirs\<close> are the directories that exist and \<open>files\<close> the contents of the files that do.
  \<open>cg_root\<close> is where the cgroup v2 hierarchy is mounted and \<open>subtree\<close> the controllers
  enabled in its \<open>cgroup.subtree_control\<close>. The \<open>_err\<close> fields inject failures: the error
  number a \<open>mkdir\<close>, \<open>rmdir\<close> or \<open>open\<close> of a path fails with (0 for none), whether
  reading an opened file fails, and for each path the error numbers of its next writes,
  in order (0 or no entry: the write succeeds). \<open>strtoll_einval\<close> says whether the C
  library sets \<open>EINVAL\<close> when \<open>strtoll\<close> converts nothing (POSIX allows both).
\<close>

definition ev :: "event \<Rightarrow> world \<Rightarrow> world" where
  "ev e w = w\<lparr>trace := trace w @ [e]\<rparr>"

definition evs :: "event list \<Rightarrow> world \<Rightarrow> world" where
  "evs es w = w\<lparr>trace := trace w @ es\<rparr>"

definition logw :: "level \<Rightarrow> string \<Rightarrow> world \<Rightarrow> world" where
  "logw l m w = ev (Log l m) w"

section \<open>The C library and the kernel, as the code uses them\<close>

subsection \<open>\<open>std::to_string\<close>\<close>

function dec_nat :: "nat \<Rightarrow> string" where
  "dec_nat n =
     (if n < 10 then [''0123456789'' ! n]
      else dec_nat (n div 10) @ [''0123456789'' ! (n mod 10)])"
  by pat_completeness auto
termination
  by (relation "measure id") auto

declare dec_nat.simps [simp del]

definition to_string :: "int \<Rightarrow> string" where
  "to_string i = (if i < 0 then CHR ''-'' # dec_nat (nat (- i)) else dec_nat (nat i))"

subsection \<open>Characters, \<open>strtoll\<close>, \<open>strstr\<close>, \<open>fgets\<close>\<close>

definition isspace :: "char \<Rightarrow> bool" where
  "isspace c = (c \<in> {CHR '' '', CHR 0x09, CHR 0x0A, CHR 0x0B, CHR 0x0C, CHR 0x0D})"

definition isdigit :: "char \<Rightarrow> bool" where
  "isdigit c = (c \<in> set ''0123456789'')"

definition digit_val :: "char \<Rightarrow> nat" where
  "digit_val c = length (takeWhile (\<lambda>d. d \<noteq> c) ''0123456789'')"

definition dec_value :: "string \<Rightarrow> nat" where
  "dec_value ds = foldl (\<lambda>a c. 10 * a + digit_val c) 0 ds"

text \<open>A buffer read as a C string ends at its first NUL byte.\<close>

definition c_str :: "string \<Rightarrow> string" where
  "c_str buf = takeWhile (\<lambda>c. c \<noteq> CHR 0x00) buf"

text \<open>
  The parts \<open>strtoll(s, &endptr, 10)\<close> splits its input into: white space, an optional
  sign, the longest run of digits, and the rest.
\<close>

definition after_space :: "string \<Rightarrow> string" where
  "after_space s = dropWhile isspace s"

definition has_minus :: "string \<Rightarrow> bool" where
  "has_minus s = (case after_space s of [] \<Rightarrow> False | c # _ \<Rightarrow> c = CHR ''-'')"

definition after_sign :: "string \<Rightarrow> string" where
  "after_sign s =
     (case after_space s of
        [] \<Rightarrow> []
      | c # r \<Rightarrow> if c = CHR ''-'' \<or> c = CHR ''+'' then r else c # r)"

definition digits_of :: "string \<Rightarrow> string" where
  "digits_of s = takeWhile isdigit (after_sign s)"

definition after_digits :: "string \<Rightarrow> string" where
  "after_digits s = dropWhile isdigit (after_sign s)"

definition number_of :: "string \<Rightarrow> int" where
  "number_of s =
     (if has_minus s then - int (dec_value (digits_of s)) else int (dec_value (digits_of s)))"

text \<open>
  \<open>strtoll\<close> called with \<open>errno = 0\<close>: the value, the rest of the input at \<open>endptr\<close>
  (\<open>None\<close> when nothing was converted and \<open>endptr\<close> is the start of the input) and the
  value of \<open>errno\<close> afterwards. A value out of the range of \<open>long long\<close> is clamped and
  sets \<open>ERANGE\<close>.
\<close>

definition strtoll :: "bool \<Rightarrow> string \<Rightarrow> int \<times> string option \<times> int" where
  "strtoll einval s =
     (if digits_of s = [] then (0, None, if einval then EINVAL else 0)
      else if number_of s > LLONG_MAX then (LLONG_MAX, Some (after_digits s), ERANGE)
      else if number_of s < LLONG_MIN then (LLONG_MIN, Some (after_digits s), ERANGE)
      else (number_of s, Some (after_digits s), 0))"

text \<open>\<open>strstr(hay, needle) != NULL\<close>.\<close>

fun strstr :: "string \<Rightarrow> string \<Rightarrow> bool" where
  "strstr [] n = (n = [])"
| "strstr (c # cs) n = (take (length n) (c # cs) = n \<or> strstr cs n)"

text \<open>
  \<open>fgets(buf, size, fp)\<close> on the unread part of a file: the bytes it stores (up to and
  including the first newline, at most \<open>size - 1\<close>) and what is left unread.
\<close>

definition fgets_len :: "nat \<Rightarrow> string \<Rightarrow> nat" where
  "fgets_len n s =
     min (n - 1)
       (let l = length (takeWhile (\<lambda>c. c \<noteq> CHR 0x0A) s)
        in if l < length s then l + 1 else l)"

definition fgets_line :: "nat \<Rightarrow> string \<Rightarrow> string" where
  "fgets_line n s = take (fgets_len n s) s"

definition fgets_rest :: "nat \<Rightarrow> string \<Rightarrow> string" where
  "fgets_rest n s = drop (fgets_len n s) s"

subsection \<open>Files and directories\<close>

text \<open>
  \<open>cgroup.subtree_control\<close> of the mounted hierarchy is a kernel interface file: it reads
  as the names of the enabled controllers, separated by spaces, and a line feed; writing
  \<open>+name\<close> to it enables the controller \<open>name\<close> (nothing changes when it is enabled
  already). Every other file holds the bytes last written to it.
\<close>

fun render_subtree :: "string list \<Rightarrow> string" where
  "render_subtree [] = [CHR 0x0A]"
| "render_subtree [c] = c @ [CHR 0x0A]"
| "render_subtree (c # cs) = c @ CHR '' '' # render_subtree cs"

definition subtree_control_path :: "world \<Rightarrow> string" where
  "subtree_control_path w = cg_root w @ ''/cgroup.subtree_control''"

definition file_content :: "world \<Rightarrow> string \<Rightarrow> string option" where
  "file_content w p =
     (if p = subtree_control_path w then Some (render_subtree (subtree w)) else files w p)"

definition store :: "string \<Rightarrow> string \<Rightarrow> world \<Rightarrow> world" where
  "store p d w =
     (if p = subtree_control_path w then
        (case d of
           [] \<Rightarrow> w
         | c # name \<Rightarrow>
             if c = CHR ''+'' \<and> name \<notin> set (subtree w)
             then w\<lparr>subtree := subtree w @ [name]\<rparr> else w)
      else w\<lparr>files := (files w)(p \<mapsto> d)\<rparr>)"

text \<open>\<open>mkdir(path, 0700)\<close>: \<open>True\<close> for the return value 0, \<open>False\<close> for -1.\<close>

definition sys_mkdir :: "string \<Rightarrow> world \<Rightarrow> bool \<times> world" where
  "sys_mkdir p w =
     (let w1 = ev (Mkdir p) w
      in if p \<in> dirs w then (False, w1\<lparr>errno := EEXIST\<rparr>)
         else if mkdir_err w p \<noteq> 0 then (False, w1\<lparr>errno := mkdir_err w p\<rparr>)
         else (True, w1\<lparr>dirs := insert p (dirs w)\<rparr>))"

definition sys_rmdir :: "string \<Rightarrow> world \<Rightarrow> bool \<times> world" where
  "sys_rmdir p w =
     (let w1 = ev (Rmdir p) w
      in if p \<notin> dirs w then (False, w1\<lparr>errno := ENOENT\<rparr>)
         else if rmdir_err w p \<noteq> 0 then (False, w1\<lparr>errno := rmdir_err w p\<rparr>)
         else (True, w1\<lparr>dirs := dirs w - {p}\<rparr>))"

text \<open>
  \<open>fopen(path, "r")\<close>: the error number, or the contents of the file.
\<close>

definition sys_fopen :: "string \<Rightarrow> world \<Rightarrow> (int + string) \<times> world" where
  "sys_fopen p w =
     (let w1 = ev (Fopen p) w
      in case file_content w p of
           None \<Rightarrow> (Inl ENOENT, w1\<lparr>errno := ENOENT\<rparr>)
         | Some c \<Rightarrow>
             if open_err w p \<noteq> 0 then (Inl (open_err w p), w1\<lparr>errno := open_err w p\<rparr>)
             else (Inr c, w1))"

text \<open>
  Modelled from the spec: \<open>util::writeBufToFile(path, buf, len, O_WRONLY, log_errors)\<close>
  is in \<open>util.cc\<close>, which is not among the sources. It opens the file, writes the whole
  buffer in one shot and closes the file; when that fails it returns false, leaves the
  error number in \<open>errno\<close> and, unless \<open>log_errors\<close> is false, logs a warning.
\<close>

definition writeBufToFile :: "string \<Rightarrow> string \<Rightarrow> bool \<Rightarrow> world \<Rightarrow> bool \<times> world" where
  "writeBufToFile p d log_errors w =
     (let w1 = ev (WriteFile p d) w;
          e = (case write_errs w p of [] \<Rightarrow> 0 | x # _ \<Rightarrow> x);
          w2 = w1\<lparr>write_errs := (write_errs w)(p := tl (write_errs w p))\<rparr>
      in if e \<noteq> 0 then
           (False, (if log_errors then logw LW ''writeBufToFile failed'' else id) (w2\<lparr>errno := e\<rparr>))
         else (True, store p d w2))"

text \<open>
  Modelled from the spec: \<open>util::readFromFile(path, buf, len)\<close> is in \<open>util.cc\<close>, which
  is not among the sources. It returns the first \<open>len\<close> bytes of the file (fewer when the
  file is shorter), or a negative value (here \<open>None\<close>) when the file cannot be read.
\<close>

definition readFromFile :: "string \<Rightarrow> nat \<Rightarrow> world \<Rightarrow> string option \<times> world" where
  "readFromFile p len w =
     (case sys_fopen p w of
        (Inl e, w1) \<Rightarrow> (None, w1)
      | (Inr c, w1) \<Rightarrow> if read_err w p then (None, w1) else (Some (take len c), w1))"

text \<open>
  Modelled from the spec: \<open>RETURN_ON_FAILURE\<close> is a macro of \<open>macros.h\<close>, which is not
  among the sources. In \<open>RETURN_ON_FAILURE(e); rest\<close>, when \<open>e\<close> is false the function
  returns false at once ("any failure aborts spawn"), otherwise it goes on with \<open>rest\<close>.
\<close>

definition RETURN_ON_FAILURE ::
  "bool \<times> world \<Rightarrow> (world \<Rightarrow> bool \<times> world) \<Rightarrow> bool \<times> world" where
  "RETURN_ON_FAILURE r rest = (if fst r then rest (snd r) else (False, snd r))"

section \<open>The configuration and the registry\<close>

text \<open>
  Modelled from the spec: \<open>nsjconf_t\<close> and \<open>pids_t\<close> are declared in \<open>nsjail.h\<close>, which is
  not among the sources. The records hold the fields the two files use, with the integer
  types of the casts and constants the code compares them with (\<open>(size_t)0\<close>,
  \<open>(ssize_t)0\<close>, \<open>0U\<close>, \<open>RLIM64_INFINITY\<close>); the registry \<open>pids\<close> is a map from the pid to
  the record. A record starts with both CPU limits at \<open>RLIM64_INFINITY\<close>, as the comment
  in \<open>addProc\<close> says.
\<close>

definition RLIM64_INFINITY :: uint64_t where
  "RLIM64_INFINITY = - 1"

record pids_t =
  start :: int
  remote_txt :: string
  pid_syscall_fd :: int
  cpu_rl_cur :: uint64_t
  cpu_rl_max :: uint64_t

datatype ns_mode = MODE_LISTEN_TCP | MODE_STANDALONE_ONCE | MODE_STANDALONE_EXECVE | MODE_STANDALONE_RERUN

record nsjconf_t =
  mode :: ns_mode
  use_cgroupv2 :: bool
  cgroupv2_mount :: string
  cgroup_mem_max :: size_t
  cgroup_mem_memsw_max :: size_t
  cgroup_mem_swap_max :: ssize_t
  cgroup_pids_max :: uint
  cgroup_cpu_ms_per_sec :: uint
  disable_rl :: bool
  rl_cpu :: uint64_t
  clone_newnet :: bool
  clone_newuser :: bool
  clone_newns :: bool
  clone_newpid :: bool
  clone_newipc :: bool
  clone_newuts :: bool
  clone_newcgroup :: bool
  clone_newtime :: bool
  pids :: "pid_t \<rightharpoonup> pids_t"

section \<open>\<open>cgroup2.cc\<close>\<close>

definition addPidToProcList :: "string \<Rightarrow> pid_t \<Rightarrow> world \<Rightarrow> bool \<times> world" where
  "addPidToProcList cgroup_path pid w =
     (let pid_str = to_string pid;
          w1 = logw LD ''Adding pid to cgroup.procs'' w;
          (ok, w2) = writeBufToFile (cgroup_path @ ''/cgroup.procs'') pid_str True w1
      in if \<not> ok then (False, logw LW ''Could not update cgroup.procs'' w2)
         else (True, w2))"

definition getCgroupPath :: "nsjconf_t \<Rightarrow> pid_t \<Rightarrow> string" where
  "getCgroupPath nsjconf pid = cgroupv2_mount nsjconf @ ''/NSJAIL.'' @ to_string pid"

definition getJailCgroupPath :: "nsjconf_t \<Rightarrow> world \<Rightarrow> string" where
  "getJailCgroupPath nsjconf w =
     cgroupv2_mount nsjconf @ ''/NSJAIL_SELF.'' @ to_string (self_pid w)"

definition createCgroup :: "string \<Rightarrow> pid_t \<Rightarrow> world \<Rightarrow> bool \<times> world" where
  "createCgroup cgroup_path pid w =
     (let w1 = logw LD ''Create cgroup for pid'' w;
          (made, w2) = sys_mkdir cgroup_path w1
      in if \<not> made \<and> errno w2 \<noteq> EEXIST then (False, logw LW ''mkdir failed'' w2)
         else (True, w2))"

definition moveSelfIntoChildCgroup :: "nsjconf_t \<Rightarrow> world \<Rightarrow> bool \<times> world" where
  "moveSelfIntoChildCgroup nsjconf w =
     (let jail_cgroup_path = getJailCgroupPath nsjconf w;
          w1 = logw LI ''nsjail is moving itself to a new child cgroup'' w
      in RETURN_ON_FAILURE (createCgroup jail_cgroup_path (self_pid w1) w1) (\<lambda>w2.
         RETURN_ON_FAILURE (addPidToProcList jail_cgroup_path 0 w2) (\<lambda>w3.
         (True, w3))))"

definition enableCgroupSubtree :: "nsjconf_t \<Rightarrow> string \<Rightarrow> pid_t \<Rightarrow> world \<Rightarrow> bool \<times> world" where
  "enableCgroupSubtree nsjconf controller pid w =
     (let cgroup_path = cgroupv2_mount nsjconf;
          w1 = logw LD ''Enable cgroup.subtree_control'' w;
          val = ''+'' @ controller;
          (ok1, w2) = writeBufToFile (cgroup_path @ ''/cgroup.subtree_control'') val False w1
      in if ok1 then (True, w2)
         else if errno w2 = EBUSY then
           RETURN_ON_FAILURE (moveSelfIntoChildCgroup nsjconf w2) (\<lambda>w3.
             let (ok2, w4) = writeBufToFile (cgroup_path @ ''/cgroup.subtree_control'') val True w3
             in if ok2 then (True, w4)
                else (False, logw LE ''Could not apply to cgroup.subtree_control'' w4))
         else (False, logw LE ''Could not apply to cgroup.subtree_control'' w2))"

definition writeToCgroup :: "string \<Rightarrow> string \<Rightarrow> string \<Rightarrow> world \<Rightarrow> bool \<times> world" where
  "writeToCgroup cgroup_path resource val w =
     (let w1 = logw LI ''Setting resource'' w;
          (ok, w2) = writeBufToFile (cgroup_path @ ''/'' @ resource) val True w1
      in if \<not> ok then (False, logw LW ''Could not update resource'' w2)
         else (True, w2))"

text \<open>
  \<open>removeCgroup\<close> converts three values with the same block of code, written out three
  times in the source: \<open>strtoll\<close>, then the checks of \<open>errno\<close>, of \<open>endptr\<close>, of what
  follows the number, and of the sign. The copies differ in the name they log and in the
  value stored when \<open>errno\<close> is \<open>ERANGE\<close>: -1 for \<open>memory.peak\<close> and \<open>system_usec\<close>, -2 for
  \<open>user_usec\<close>. \<open>parse_ll erange_val what einval s\<close> is that block on the C string \<open>s\<close>:
  the value stored and the lines logged.
\<close>

definition parse_ll :: "int \<Rightarrow> string \<Rightarrow> bool \<Rightarrow> string \<Rightarrow> int \<times> event list" where
  "parse_ll erange_val what einval s =
     (case strtoll einval s of
        (val, endptr, en) \<Rightarrow>
          if en = ERANGE then (erange_val, [Log LW (what @ '': value out of range'')])
          else if en \<noteq> 0 \<and> val = 0 then (- 1, [Log LW (what @ '': error converting value'')])
          else
            (case endptr of
               None \<Rightarrow> (- 1, [Log LW (what @ '': no numerical digits found'')])
             | Some e \<Rightarrow>
                 let check_ptr = dropWhile isspace e
                 in if check_ptr \<noteq> [] then
                      (- 1, [Log LW (what @ '': extra characters after number'')])
                    else if val < 0 then (- 1, [Log LW (what @ '': negative value'')])
                    else (val, [])))"

text \<open>Step 1 of \<open>removeCgroup\<close>: \<open>memory_peak_bytes\<close>.\<close>

definition read_memory_peak :: "string \<Rightarrow> world \<Rightarrow> int \<times> world" where
  "read_memory_peak cgroup_path w =
     (let mem_peak_path = cgroup_path @ ''/memory.peak''
      in case sys_fopen mem_peak_path w of
           (Inr content, w1) \<Rightarrow>
             let w2 = ev (Fgets mem_peak_path) w1;
                 (v, w3) =
                   (if \<not> read_err w mem_peak_path \<and> content \<noteq> [] then
                      (let mem_buf = c_str (fgets_line 64 content);
                           (v, logs) = parse_ll (- 1) ''memory.peak'' (strtoll_einval w) mem_buf
                       in (v, evs logs w2))
                    else if \<not> read_err w mem_peak_path
                    then (- 1, logw LW ''memory.peak: file is empty'' w2)
                    else (- 1, logw LW ''memory.peak: error reading from file'' w2))
             in (v, ev (Fclose mem_peak_path) w3)
         | (Inl e, w1) \<Rightarrow>
             if e = ENOENT then (- 1, logw LD ''memory.peak: file not found'' w1)
             else (- 1, logw LW ''memory.peak: failed to open file'' w1))"

text \<open>Step 2 of \<open>removeCgroup\<close>: the body of the \<open>while (fgets(line, 256, fp_cpu))\<close> loop,
  up to its \<open>break\<close>, and the loop on what is left of the file at \<open>path\<close>. Every test of
  the loop is a call of \<open>fgets\<close>, the last one (at the end of the file) too.\<close>

definition cpu_stat_line :: "bool \<Rightarrow> string \<Rightarrow> int \<Rightarrow> int \<Rightarrow> int \<times> int \<times> event list" where
  "cpu_stat_line einval line user_usec system_usec =
     (if user_usec = - 1 \<and> take 10 line = ''user_usec '' then
        (let (v, logs) = parse_ll (- 2) ''user_usec'' einval (drop 10 line)
         in (v, system_usec, logs))
      else if system_usec = - 1 \<and> take 12 line = ''system_usec '' then
        (let (v, logs) = parse_ll (- 1) ''system_usec'' einval (drop 12 line)
         in (user_usec, v, logs))
      else (user_usec, system_usec, []))"

function scan_cpu_stat ::
  "string \<Rightarrow> bool \<Rightarrow> string \<Rightarrow> int \<Rightarrow> int \<Rightarrow> event list \<Rightarrow> int \<times> int \<times> event list" where
  "scan_cpu_stat path einval content user_usec system_usec logs =
     (if content = [] then (user_usec, system_usec, logs @ [Fgets path])
      else
        let r = cpu_stat_line einval (c_str (fgets_line 256 content)) user_usec system_usec;
            u = fst r;
            s = fst (snd r);
            logs' = logs @ Fgets path # snd (snd r)
        in if u \<noteq> - 1 \<and> s \<noteq> - 1 then (u, s, logs')
           else scan_cpu_stat path einval (fgets_rest 256 content) u s logs')"
  by pat_completeness auto
termination
proof (relation "measure (\<lambda>(p, e, c, u, s, l). length c)")
  show "wf (measure (\<lambda>(p, e, c, u, s, l). length c))"
    by simp
next
  fix path :: string and einval :: bool and content :: string and user_usec system_usec :: int
    and logs xs :: "event list" and r :: "int \<times> int \<times> event list" and u s :: int
  assume "content \<noteq> []"
  then have "length (fgets_rest 256 content) < length content"
    by (cases content) (auto simp: fgets_rest_def fgets_len_def Let_def min_def)
  then show "((path, einval, fgets_rest 256 content, u, s, xs),
       (path, einval, content, user_usec, system_usec, logs))
      \<in> measure (\<lambda>(p, e, c, u, s, l). length c)"
    by simp
qed

declare scan_cpu_stat.simps [simp del]

text \<open>
  The sum of two \<open>long long\<close> values as the machine computes it (two's complement, 64
  bits): \<open>total_cpu_usec = user_usec + system_usec\<close> wraps around when the sum is above
  \<open>LLONG_MAX\<close>.
\<close>

definition ll_add :: "int \<Rightarrow> int \<Rightarrow> int" where
  "ll_add a b = sint (word_of_int (a + b) :: 64 word)"

definition read_cpu_stat :: "string \<Rightarrow> world \<Rightarrow> (int \<times> int \<times> int) \<times> world" where
  "read_cpu_stat cgroup_path w =
     (let cpu_stat_path = cgroup_path @ ''/cpu.stat''
      in case sys_fopen cpu_stat_path w of
           (Inr content, w1) \<Rightarrow>
             let (user_usec, system_usec, logs) =
                   (if read_err w cpu_stat_path then (- 1, - 1, [Fgets cpu_stat_path])
                    else scan_cpu_stat cpu_stat_path (strtoll_einval w) content (- 1) (- 1) []);
                 w2 = evs logs w1;
                 w3 = (if read_err w cpu_stat_path
                       then logw LW ''cpu.stat: error occurred while reading'' w2 else w2);
                 w4 = ev (Fclose cpu_stat_path) w3
             in if user_usec \<ge> 0 \<and> system_usec \<ge> 0 then
                  ((user_usec, system_usec, ll_add user_usec system_usec), w4)
                else
                  ((user_usec, system_usec, - 1),
                   if user_usec = - 1 \<or> system_usec = - 1
                   then logw LW ''cpu.stat: could not determine total CPU usage'' w4 else w4)
         | (Inl e, w1) \<Rightarrow>
             ((- 1, - 1, - 1),
              if e = ENOENT then logw LD ''cpu.stat: file not found'' w1
              else logw LW ''cpu.stat: failed to open file'' w1))"

text \<open>\<open>removeCgroup\<close>: steps 1 and 2, step 3 (the statistics line), then \<open>rmdir\<close>.\<close>

definition removeCgroup :: "string \<Rightarrow> world \<Rightarrow> world" where
  "removeCgroup cgroup_path w =
     (let (memory_peak_bytes, w1) = read_memory_peak cgroup_path w;
          ((user_usec, system_usec, total_cpu_usec), w2) = read_cpu_stat cgroup_path w1;
          w3 = ev (Stats total_cpu_usec memory_peak_bytes user_usec system_usec) w2;
          w4 = logw LD ''Remove cgroup'' w3;
          (removed, w5) = sys_rmdir cgroup_path w4
      in if \<not> removed then logw LW ''rmdir failed'' w5 else w5)"

definition needMemoryController :: "nsjconf_t \<Rightarrow> bool" where
  "needMemoryController nsjconf =
     (let swap_max = (if cgroup_mem_memsw_max nsjconf > 0
                      then cgroup_mem_memsw_max nsjconf - cgroup_mem_max nsjconf
                      else cgroup_mem_swap_max nsjconf)
      in if cgroup_mem_max nsjconf = 0 \<and> sint swap_max < 0 then False else True)"

definition needPidsController :: "nsjconf_t \<Rightarrow> bool" where
  "needPidsController nsjconf = (cgroup_pids_max nsjconf \<noteq> 0)"

definition needCpuController :: "nsjconf_t \<Rightarrow> bool" where
  "needCpuController nsjconf = (cgroup_cpu_ms_per_sec nsjconf \<noteq> 0)"

definition SUBTREE_CONTROL_BUF_LEN :: nat where
  "SUBTREE_CONTROL_BUF_LEN = 0x40"

text \<open>\<open>cgroup2::setup\<close> (\<open>setup\<close> is a keyword of the prover, hence the longer name).\<close>

definition cgroup2_setup :: "nsjconf_t \<Rightarrow> world \<Rightarrow> bool \<times> world" where
  "cgroup2_setup nsjconf w =
     (let p = cgroupv2_mount nsjconf @ ''/cgroup.subtree_control''
      in case readFromFile p (SUBTREE_CONTROL_BUF_LEN - 1) w of
           (None, w1) \<Rightarrow> (False, logw LW ''cgroupv2 setup: Could not read root subtree_control'' w1)
         | (Some content, w1) \<Rightarrow>
             let buf = c_str content;
                 subtree_ok =
                   ((\<not> needMemoryController nsjconf \<or> strstr buf ''memory'') \<and>
                    (\<not> needPidsController nsjconf \<or> strstr buf ''pids'') \<and>
                    (\<not> needCpuController nsjconf \<or> strstr buf ''cpu''))
             in if \<not> subtree_ok then
                  RETURN_ON_FAILURE
                    (if needMemoryController nsjconf
                     then enableCgroupSubtree nsjconf ''memory'' (self_pid w1) w1 else (True, w1)) (\<lambda>w2.
                  RETURN_ON_FAILURE
                    (if needPidsController nsjconf
                     then enableCgroupSubtree nsjconf ''pids'' (self_pid w2) w2 else (True, w2)) (\<lambda>w3.
                  RETURN_ON_FAILURE
                    (if needCpuController nsjconf
                     then enableCgroupSubtree nsjconf ''cpu'' (self_pid w3) w3 else (True, w3)) (\<lambda>w4.
                  (True, w4))))
                else (True, w1))"

definition initNsFromParentMem :: "nsjconf_t \<Rightarrow> pid_t \<Rightarrow> world \<Rightarrow> bool \<times> world" where
  "initNsFromParentMem nsjconf pid w =
     (let swap_max = (if cgroup_mem_memsw_max nsjconf > 0
                      then cgroup_mem_memsw_max nsjconf - cgroup_mem_max nsjconf
                      else cgroup_mem_swap_max nsjconf)
      in if cgroup_mem_max nsjconf = 0 \<and> sint swap_max < 0 then (True, w)
         else
           let cgroup_path = getCgroupPath nsjconf pid
           in RETURN_ON_FAILURE (createCgroup cgroup_path pid w) (\<lambda>w1.
              RETURN_ON_FAILURE (addPidToProcList cgroup_path pid w1) (\<lambda>w2.
              RETURN_ON_FAILURE
                (if cgroup_mem_max nsjconf > 0
                 then writeToCgroup cgroup_path ''memory.max''
                        (to_string (uint (cgroup_mem_max nsjconf))) w2
                 else (True, w2)) (\<lambda>w3.
              RETURN_ON_FAILURE
                (if sint swap_max \<ge> 0
                 then writeToCgroup cgroup_path ''memory.swap.max'' (to_string (sint swap_max)) w3
                 else (True, w3)) (\<lambda>w4.
              (True, w4))))))"

definition initNsFromParentPids :: "nsjconf_t \<Rightarrow> pid_t \<Rightarrow> world \<Rightarrow> bool \<times> world" where
  "initNsFromParentPids nsjconf pid w =
     (if cgroup_pids_max nsjconf = 0 then (True, w)
      else
        let cgroup_path = getCgroupPath nsjconf pid
        in RETURN_ON_FAILURE (createCgroup cgroup_path pid w) (\<lambda>w1.
           RETURN_ON_FAILURE (addPidToProcList cgroup_path pid w1) (\<lambda>w2.
           writeToCgroup cgroup_path ''pids.max'' (to_string (uint (cgroup_pids_max nsjconf))) w2)))"

definition initNsFromParentCpu :: "nsjconf_t \<Rightarrow> pid_t \<Rightarrow> world \<Rightarrow> bool \<times> world" where
  "initNsFromParentCpu nsjconf pid w =
     (if cgroup_cpu_ms_per_sec nsjconf = 0 then (True, w)
      else
        let cgroup_path = getCgroupPath nsjconf pid
        in RETURN_ON_FAILURE (createCgroup cgroup_path pid w) (\<lambda>w1.
           RETURN_ON_FAILURE (addPidToProcList cgroup_path pid w1) (\<lambda>w2.
           let cpu_ms_per_sec_str =
                 to_string (uint (cgroup_cpu_ms_per_sec nsjconf * 1000)) @ '' 1000000''
           in writeToCgroup cgroup_path ''cpu.max'' cpu_ms_per_sec_str w2)))"

definition initNsFromParent :: "nsjconf_t \<Rightarrow> pid_t \<Rightarrow> world \<Rightarrow> bool \<times> world" where
  "initNsFromParent nsjconf pid w =
     RETURN_ON_FAILURE (initNsFromParentMem nsjconf pid w) (\<lambda>w1.
     RETURN_ON_FAILURE (initNsFromParentPids nsjconf pid w1) (\<lambda>w2.
     initNsFromParentCpu nsjconf pid w2))"

definition finishFromParent :: "nsjconf_t \<Rightarrow> pid_t \<Rightarrow> world \<Rightarrow> world" where
  "finishFromParent nsjconf pid w =
     (if cgroup_mem_max nsjconf \<noteq> 0 \<or> cgroup_pids_max nsjconf \<noteq> 0 \<or>
         cgroup_cpu_ms_per_sec nsjconf \<noteq> 0
      then removeCgroup (getCgroupPath nsjconf pid) w else w)"

section \<open>\<open>subproc.cc\<close>\<close>

text \<open>
  Modelled from the spec: \<open>LOG_F\<close> is a macro of \<open>logs.h\<close>, which is not among the
  sources. It logs at the fatal severity and ends the process; its exit status is taken
  to be \<open>0xff\<close>, the status of the \<open>exit\<close> calls in \<open>initParent\<close>. So a call either
  returns to its caller, or ends the process (\<open>exit\<close>, \<open>LOG_F\<close>), or replaces the
  process image (\<open>exec\<close>).
\<close>

datatype 'a outcome = Returns 'a | Exits int | Execs

text \<open>
  What the kernel and the collaborators outside these two files (\<open>net\<close>, \<open>user\<close>, the
  cgroup v1 driver, \<open>contain\<close>, \<open>sandbox\<close>, \<open>util\<close>) answer during one spawn. \<open>k_clone3\<close> and
  \<open>k_clone\<close> give the return value and the error number of the system calls for the flags
  they get; \<open>have_clone3\<close> is the compile-time test \<open>defined(__NR_clone3)\<close>; \<open>rcv_char\<close> is
  the byte \<open>readFromFd\<close> gets from the handshake channel, if it gets one.
\<close>

record env =
  limitConns_ok :: bool
  unshare_ok :: bool
  newProc_execs :: bool
  socketpair_ok :: bool
  child_fd :: int
  parent_fd :: int
  have_clone3 :: bool
  k_clone3 :: "uint64_t \<Rightarrow> int \<times> int"
  k_clone :: "32 word \<Rightarrow> int \<times> int"
  time_now :: int
  conn_txt :: string
  syscall_fd :: int
  net_init_ok :: bool
  cgroup_v1_init_ok :: bool
  user_init_ok :: bool
  writeToFd_ok :: bool
  rcv_char :: "char option"

definition CSIGNAL :: "32 word" where "CSIGNAL = 0xff"
definition CLONE_NEWTIME :: uint64_t where "CLONE_NEWTIME = 0x00000080"
definition CLONE_VM :: uint64_t where "CLONE_VM = 0x00000100"
definition CLONE_NEWNS :: uint64_t where "CLONE_NEWNS = 0x00020000"
definition CLONE_NEWCGROUP :: uint64_t where "CLONE_NEWCGROUP = 0x02000000"
definition CLONE_NEWUTS :: uint64_t where "CLONE_NEWUTS = 0x04000000"
definition CLONE_NEWIPC :: uint64_t where "CLONE_NEWIPC = 0x08000000"
definition CLONE_NEWUSER :: uint64_t where "CLONE_NEWUSER = 0x10000000"
definition CLONE_NEWPID :: uint64_t where "CLONE_NEWPID = 0x20000000"
definition CLONE_NEWNET :: uint64_t where "CLONE_NEWNET = 0x40000000"
definition CLONE_CLEAR_SIGHAND :: uint64_t where "CLONE_CLEAR_SIGHAND = 0x100000000"

definition SIGKILL :: int where "SIGKILL = 9"
definition SIGCHLD :: int where "SIGCHLD = 17"
definition SIGXCPU :: int where "SIGXCPU = 24"

definition kSubprocDoneChar :: char where "kSubprocDoneChar = CHR ''D''"
definition kSubprocErrorChar :: char where "kSubprocErrorChar = CHR ''E''"

definition addProc :: "env \<Rightarrow> nsjconf_t \<Rightarrow> pid_t \<Rightarrow> world \<Rightarrow> unit outcome \<times> nsjconf_t \<times> world" where
  "addProc e nsjconf pid w =
     (let p0 = \<lparr>start = time_now e, remote_txt = conn_txt e, pid_syscall_fd = syscall_fd e,
                cpu_rl_cur = RLIM64_INFINITY, cpu_rl_max = RLIM64_INFINITY\<rparr>;
          w1 = (if time_now e = - 1 then logw LE ''CRITICAL: time(NULL) failed'' w else w);
          p = (if \<not> disable_rl nsjconf
               then p0\<lparr>cpu_rl_cur := rl_cpu nsjconf, cpu_rl_max := rl_cpu nsjconf\<rparr> else p0)
      in if pids nsjconf pid \<noteq> None then (Exits 0xff, nsjconf, logw LF ''pid already exists'' w1)
         else (Returns (), nsjconf\<lparr>pids := (pids nsjconf)(pid \<mapsto> p)\<rparr>,
               logw LD ''Added pid to the queue'' w1))"

definition removeProc :: "nsjconf_t \<Rightarrow> pid_t \<Rightarrow> world \<Rightarrow> nsjconf_t \<times> world" where
  "removeProc nsjconf pid w =
     (case pids nsjconf pid of
        None \<Rightarrow> (nsjconf, logw LW ''pid does not exist ?'' w)
      | Some p \<Rightarrow>
          let w1 = logw LD ''Removed pid from the queue'' w;
              w2 = ev (CloseFd (pid_syscall_fd p)) w1
          in (nsjconf\<lparr>pids := (pids nsjconf)(pid := None)\<rparr>, ev (Erase pid) w2))"

definition countProc :: "nsjconf_t \<Rightarrow> nat" where
  "countProc nsjconf = card (dom (pids nsjconf))"

subsection \<open>The reaper\<close>

text \<open>
  The machine's double-precision arithmetic (IEEE 754 binary64, rounding to nearest, ties
  to even). A finite \<open>double\<close> is the rational number it denotes, and an operation is the
  exact operation followed by the rounding \<open>to_double\<close>. To round \<open>x\<close>, its magnitude is
  scaled by a power of two into the range of the 53-bit significands, from \<open>2 ^ 52\<close> up
  to \<open>2 ^ 53\<close>, rounded to an integer and scaled back. \<open>scale_up\<close> doubles at most 1074
  times (the smallest positive double is \<open>2 ^ -1074\<close>, so smaller magnitudes round on that
  grid, as the subnormal numbers do) and \<open>scale_down\<close> halves at most 971 times (the
  largest exponent: the magnitudes below \<open>2 ^ 1024\<close>, among them every 64-bit integer and
  what \<open>reapProc\<close> computes from them; there is no infinity here). Both return the scaled
  number and the power of two.
\<close>

definition round_half_even :: "rat \<Rightarrow> int" where
  "round_half_even x =
     (let f = \<lfloor>x\<rfloor>;
          d = x - of_int f
      in if d < 1 / 2 then f else if 1 / 2 < d then f + 1 else if even f then f else f + 1)"

primrec scale_up :: "nat \<Rightarrow> rat \<Rightarrow> rat \<Rightarrow> rat \<times> rat" where
  "scale_up 0 x s = (x, s)"
| "scale_up (Suc n) x s = (if x < 2 ^ 52 then scale_up n (2 * x) (2 * s) else (x, s))"

primrec scale_down :: "nat \<Rightarrow> rat \<Rightarrow> rat \<Rightarrow> rat \<times> rat" where
  "scale_down 0 x s = (x, s)"
| "scale_down (Suc n) x s = (if 2 ^ 53 \<le> x then scale_down n (x / 2) (2 * s) else (x, s))"

definition to_double :: "rat \<Rightarrow> double" where
  "to_double x =
     (let a = \<bar>x\<bar>
      in if a < 2 ^ 52 then
           (case scale_up 1074 a 1 of (y, s) \<Rightarrow> sgn x * of_int (round_half_even y) / s)
         else
           (case scale_down 971 a 1 of (y, s) \<Rightarrow> sgn x * of_int (round_half_even y) * s))"

text \<open>The conversions \<open>(double)\<close> of a \<open>long\<close> and of a \<open>uint64_t\<close>, the sum and the quotient.\<close>

definition d_of_long :: "long \<Rightarrow> double" where
  "d_of_long i = to_double (of_int (sint i))"

definition d_of_u64 :: "uint64_t \<Rightarrow> double" where
  "d_of_u64 i = to_double (of_int (uint i))"

definition d_add :: "double \<Rightarrow> double \<Rightarrow> double" where
  "d_add a b = to_double (a + b)"

definition d_div :: "double \<Rightarrow> double \<Rightarrow> double" where
  "d_div a b = to_double (a / b)"

text \<open>
  What \<open>wait4(pid, &status, .., &usage)\<close> answers: the value returned, the status, the
  user and system times of \<open>usage\<close> (\<open>ru_utime\<close> and \<open>ru_stime\<close>, each a \<open>timeval\<close> of two
  \<open>long\<close> fields, seconds and microseconds) and the error number when it fails.
\<close>

record rusage =
  ru_utime_sec :: long
  ru_utime_usec :: long
  ru_stime_sec :: long
  ru_stime_usec :: long

record reap_env =
  w4_ret :: int
  w4_status :: "32 word"
  w4_usage :: rusage
  w4_errno :: int

text \<open>The status macros of \<open><sys/wait.h>\<close> (glibc).\<close>

definition WTERMSIG :: "32 word \<Rightarrow> int" where
  "WTERMSIG status = uint (status AND 0x7f)"

definition WEXITSTATUS :: "32 word \<Rightarrow> int" where
  "WEXITSTATUS status = uint (drop_bit 8 (status AND 0xff00))"

definition WIFEXITED :: "32 word \<Rightarrow> bool" where
  "WIFEXITED status = (WTERMSIG status = 0)"

definition WIFSIGNALED :: "32 word \<Rightarrow> bool" where
  "WIFSIGNALED status = (sint (ucast ((status AND 0x7f) + 1) :: 8 word) div 2 > 0)"

text \<open>
  The three doubles that \<open>reapProc\<close> computes from \<open>usage\<close>:
  \<open>user_sec = usage.ru_utime.tv_sec + usage.ru_utime.tv_usec / 1e6\<close>, \<open>sys_sec\<close> alike from
  \<open>ru_stime\<close>, and \<open>tot_sec = user_sec + sys_sec\<close>. The literal \<open>1e6\<close> is the double
  1000000.
\<close>

definition user_sec :: "rusage \<Rightarrow> double" where
  "user_sec usage =
     d_add (d_of_long (ru_utime_sec usage)) (d_div (d_of_long (ru_utime_usec usage)) 1000000)"

definition sys_sec :: "rusage \<Rightarrow> double" where
  "sys_sec usage =
     d_add (d_of_long (ru_stime_sec usage)) (d_div (d_of_long (ru_stime_usec usage)) 1000000)"

definition tot_sec :: "rusage \<Rightarrow> double" where
  "tot_sec usage = d_add (user_sec usage) (sys_sec usage)"

text \<open>
  \<open>reapProc(nsjconf, pid, should_wait)\<close>. \<open>cgroup::finishFromParent\<close> of the cgroup v1
  driver is outside these files: it is the event \<open>V1Finish\<close>.
\<close>

definition reapProc ::
  "reap_env \<Rightarrow> nsjconf_t \<Rightarrow> pid_t \<Rightarrow> bool \<Rightarrow> world \<Rightarrow> int \<times> nsjconf_t \<times> world" where
  "reapProc e nsjconf pid should_wait w =
     (let (stored_cpu_rl_max, w1) =
            (case pids nsjconf pid of
               Some p \<Rightarrow> (cpu_rl_max p, logw LI ''Configured RLIMIT_CPU'' w)
             | None \<Rightarrow> (RLIM64_INFINITY, logw LW ''pid not found in tracked process map during reap'' w))
      in if w4_ret e = pid then
           (let status = w4_status e;
                w2 = logw LI ''CPU usage'' w1;
                w3 = (if use_cgroupv2 nsjconf then finishFromParent nsjconf pid w2
                      else ev (V1Finish pid) w2)
            in if WIFEXITED status then
                 (let w4 = ev (Report pid (Exited (WEXITSTATUS status))) w3;
                      (nsjconf', w5) = removeProc nsjconf pid w4
                  in (WEXITSTATUS status, nsjconf', w5))
               else if WIFSIGNALED status then
                 (let sig = WTERMSIG status;
                      w4 = (if sig = SIGXCPU then ev (Report pid CpuSoftLimit) w3
                            else if sig = SIGKILL then
                              (if stored_cpu_rl_max \<noteq> RLIM64_INFINITY \<and>
                                  tot_sec (w4_usage e) \<ge> d_of_u64 stored_cpu_rl_max
                               then ev (Report pid CpuHardLimit) w3
                               else ev (Report pid KilledBySigkill) w3)
                            else ev (Report pid (TerminatedBySignal sig)) w3);
                      (nsjconf', w5) = removeProc nsjconf pid w4
                  in (128 + sig, nsjconf', w5))
               else (0, nsjconf, w3))
         else
           (let w2 = (if w4_ret e = - 1 then w1\<lparr>errno := w4_errno e\<rparr> else w1)
            in (0, nsjconf, if errno w2 \<noteq> ECHILD then logw LW ''wait4 failed'' w2 else w2)))"

subsection \<open>Spawning\<close>

definition initParent :: "env \<Rightarrow> nsjconf_t \<Rightarrow> pid_t \<Rightarrow> int \<Rightarrow> world \<Rightarrow> bool outcome \<times> world" where
  "initParent e nsjconf pid pipefd w =
     (if \<not> net_init_ok e then (Returns False, logw LE ''Could not initialize net namespace'' w)
      else
        let (cg, w1) =
              (if use_cgroupv2 nsjconf then
                 (case initNsFromParent nsjconf pid w of
                    (False, w') \<Rightarrow> (False, logw LE ''Could not initialize cgroup 2 user namespace'' w')
                  | (True, w') \<Rightarrow> (True, w'))
               else if \<not> cgroup_v1_init_ok e then
                 (False, logw LE ''Could not initialize cgroup user namespace'' w)
               else (True, w))
        in if \<not> cg then (Exits 0xff, w1)
           else if \<not> user_init_ok e then
             (Returns False, logw LE ''Could not initialize user namespace'' w1)
           else if \<not> writeToFd_ok e then
             (Returns False, logw LE ''Could not signal the new process via a socketpair'' w1)
           else (Returns True, w1))"

definition cloneProc :: "env \<Rightarrow> uint64_t \<Rightarrow> int \<Rightarrow> world \<Rightarrow> int \<times> world" where
  "cloneProc e flags exit_signal0 w =
     (let exit_signal = (word_of_int exit_signal0 :: 32 word) AND CSIGNAL
      in if flags AND CLONE_VM \<noteq> 0 then
           (- 1, (logw LE ''Cannot use clone(flags & CLONE_VM)'' w)\<lparr>errno := 0\<rparr>)
         else
           let w1 = (if flags AND CLONE_NEWTIME \<noteq> 0
                     then logw LW ''CLONE_NEWTIME requested, only supported with unshare()'' w
                     else w);
               fallback = (\<lambda>w'.
                 if flags AND CLONE_NEWTIME \<noteq> 0 then
                   (- 1, (logw LE ''CLONE_NEWTIME was requested but clone3() is not supported'' w')
                           \<lparr>errno := 0\<rparr>)
                 else
                   let w2 = logw LD ''Cloning process with flags'' w';
                       arg = (ucast flags :: 32 word) OR exit_signal;
                       (ret, en) = k_clone e arg;
                       w3 = ev (Clone (ucast arg)) w2
                   in (ret, if ret = - 1 then w3\<lparr>errno := en\<rparr> else w3))
           in if have_clone3 e then
                (let (ret, en) = k_clone3 e (flags OR CLONE_CLEAR_SIGHAND);
                     w2 = ev (Clone3 (flags OR CLONE_CLEAR_SIGHAND)) w1
                 in if ret \<noteq> - 1 then (ret, w2)
                    else
                      let (ret', en') = k_clone3 e flags;
                          w3 = ev (Clone3 flags) (w2\<lparr>errno := en\<rparr>);
                          w4 = (if ret' = - 1 then w3\<lparr>errno := en'\<rparr> else w3)
                      in if ret' \<noteq> - 1 \<or> errno w4 \<noteq> ENOSYS then (ret', w4)
                         else fallback w4)
              else fallback w1)"

definition clone_flags :: "nsjconf_t \<Rightarrow> uint64_t" where
  "clone_flags nsjconf =
     (if clone_newnet nsjconf then CLONE_NEWNET else 0) OR
     (if clone_newuser nsjconf then CLONE_NEWUSER else 0) OR
     (if clone_newns nsjconf then CLONE_NEWNS else 0) OR
     (if clone_newpid nsjconf then CLONE_NEWPID else 0) OR
     (if clone_newipc nsjconf then CLONE_NEWIPC else 0) OR
     (if clone_newuts nsjconf then CLONE_NEWUTS else 0) OR
     (if clone_newcgroup nsjconf then CLONE_NEWCGROUP else 0) OR
     (if clone_newtime nsjconf then CLONE_NEWTIME else 0)"

text \<open>
  \<open>runChild\<close>. \<open>newProc\<close> (the bootstrap of the new process) is not followed: it ends in
  \<open>exec\<close> when \<open>newProc_execs\<close> holds, and otherwise returns, after which its caller ends
  the process with \<open>LOG_F\<close>.
\<close>

definition runChild :: "env \<Rightarrow> nsjconf_t \<Rightarrow> world \<Rightarrow> int outcome \<times> nsjconf_t \<times> world" where
  "runChild e nsjconf w =
     (if \<not> limitConns_ok e then (Returns 0, nsjconf, w)
      else
        let flags = clone_flags nsjconf
        in if mode nsjconf = MODE_STANDALONE_EXECVE then
             (let w1 = logw LD ''unshare'' w
              in if \<not> unshare_ok e then (Exits 0xff, nsjconf, logw LF ''unshare'' w1)
                 else if newProc_execs e then (Execs, nsjconf, w1)
                 else (Exits 0xff, nsjconf, logw LF ''Launching new process failed'' w1))
           else
             let w1 = logw LD ''Creating new process with clone flags'' w
             in if \<not> socketpair_ok e then (Returns (- 1), nsjconf, logw LE ''socketpair failed'' w1)
                else
                  let (pid, w2) = cloneProc e flags SIGCHLD w1
                  in if pid = 0 then
                       (let w3 = ev (CloseFd (parent_fd e)) w2
                        in if newProc_execs e then (Execs, nsjconf, w3)
                           else (Exits 0xff, nsjconf, logw LF ''Launching child process failed'' w3))
                     else
                       let w3 = ev (CloseFd (child_fd e)) w2
                       in if pid = - 1 then
                            (let saved_errno = errno w3;
                                 w4 = logw LW ''clone failed'' w3;
                                 w5 = ev (CloseFd (parent_fd e)) w4
                             in (Returns pid, nsjconf, w5\<lparr>errno := saved_errno\<rparr>))
                          else
                            (case addProc e nsjconf pid w3 of
                               (Exits c, nsjconf', w4) \<Rightarrow> (Exits c, nsjconf', w4)
                             | (Execs, nsjconf', w4) \<Rightarrow> (Execs, nsjconf', w4)
                             | (Returns u, nsjconf', w4) \<Rightarrow>
                                 (case initParent e nsjconf' pid (parent_fd e) w4 of
                                    (Exits c, w5) \<Rightarrow> (Exits c, nsjconf', w5)
                                  | (Execs, w5) \<Rightarrow> (Execs, nsjconf', w5)
                                  | (Returns False, w5) \<Rightarrow>
                                      (Returns (- 1), nsjconf', ev (CloseFd (parent_fd e)) w5)
                                  | (Returns True, w5) \<Rightarrow>
                                      if rcv_char e = Some kSubprocErrorChar then
                                        (Returns (- 1), nsjconf',
                                         ev (CloseFd (parent_fd e))
                                           (logw LW ''Received error message from the child process'' w5))
                                      else (Returns pid, nsjconf', ev (CloseFd (parent_fd e)) w5))))"

section \<open>Reading the trace\<close>

text \<open>
  The file writes of a trace, in order, and what was written to one path. A world is
  \<open>healthy\<close> when no \<open>mkdir\<close> and no write is made to fail.
\<close>

definition writes_of :: "event list \<Rightarrow> (string \<times> string) list" where
  "writes_of es = List.map_filter (\<lambda>e. case e of WriteFile q d \<Rightarrow> Some (q, d) | _ \<Rightarrow> None) es"

definition written_to :: "string \<Rightarrow> world \<Rightarrow> string list" where
  "written_to p w = map snd (filter (\<lambda>qd. fst qd = p) (writes_of (trace w)))"

definition healthy :: "world \<Rightarrow> bool" where
  "healthy w = (\<forall>p. mkdir_err w p = 0 \<and> write_errs w p = [])"

text \<open>
  The system calls, stream operations and registry updates of a trace (\<open>effects\<close>:
  everything but the log lines \<open>Log\<close>, \<open>Stats\<close> and \<open>Report\<close>), and its reports.
\<close>

fun is_effect :: "event \<Rightarrow> bool" where
  "is_effect (Log l m) = False"
| "is_effect (Stats t p u s) = False"
| "is_effect (Report p d) = False"
| "is_effect e = True"

definition effects :: "event list \<Rightarrow> event list" where
  "effects es = filter is_effect es"

definition reports :: "event list \<Rightarrow> (pid_t \<times> death) list" where
  "reports es = List.map_filter (\<lambda>e. case e of Report p d \<Rightarrow> Some (p, d) | _ \<Rightarrow> None) es"

text \<open>
  Inputs for the examples: a world with an empty cgroup v2 hierarchy mounted at
  \<open>/sys/fs/cgroup\<close> in which nothing fails, and a configuration with every limit unset
  (\<open>cgroup_mem_swap_max\<close> unset is -1) and an empty registry.
\<close>

definition world0 :: world where
  "world0 =
     \<lparr>dirs = {}, files = Map.empty, cg_root = ''/sys/fs/cgroup'', subtree = [],
      mkdir_err = (\<lambda>_. 0), rmdir_err = (\<lambda>_. 0), open_err = (\<lambda>_. 0), read_err = (\<lambda>_. False),
      write_errs = (\<lambda>_. []), strtoll_einval = False, self_pid = 1000, errno = 0, trace = []\<rparr>"

definition conf0 :: nsjconf_t where
  "conf0 =
     \<lparr>mode = MODE_STANDALONE_ONCE, use_cgroupv2 = True, cgroupv2_mount = ''/sys/fs/cgroup'',
      cgroup_mem_max = 0, cgroup_mem_memsw_max = 0, cgroup_mem_swap_max = - 1,
      cgroup_pids_max = 0, cgroup_cpu_ms_per_sec = 0, disable_rl = False, rl_cpu = 600,
      clone_newnet = True, clone_newuser = True, clone_newns = True, clone_newpid = True,
      clone_newipc = True, clone_newuts = True, clone_newcgroup = True, clone_newtime = False,
      pids = Map.empty\<rparr>"

text \<open>
  What a step does in a healthy world: it succeeds, leaves the world healthy, adds the
  file writes \<open>ws\<close> and removes no directory. \<open>mem_writes\<close>, \<open>pids_writes\<close> and
  \<open>cpu_writes\<close> are the writes of the three parts of the per-child initialisation.
\<close>

definition ok_step :: "bool \<times> world \<Rightarrow> world \<Rightarrow> (string \<times> string) list \<Rightarrow> bool" where
  "ok_step r w ws =
     (fst r \<and> healthy (snd r) \<and> writes_of (trace (snd r)) = writes_of (trace w) @ ws \<and>
      dirs w \<subseteq> dirs (snd r))"

definition oks :: "(world \<Rightarrow> bool \<times> world) \<Rightarrow> (string \<times> string) list \<Rightarrow> bool" where
  "oks f ws = (\<forall>w. healthy w \<longrightarrow> ok_step (f w) w ws)"

definition derived_swap_max :: "nsjconf_t \<Rightarrow> ssize_t" where
  "derived_swap_max c =
     (if cgroup_mem_memsw_max c > 0 then cgroup_mem_memsw_max c - cgroup_mem_max c
      else cgroup_mem_swap_max c)"

definition mem_writes :: "nsjconf_t \<Rightarrow> pid_t \<Rightarrow> (string \<times> string) list" where
  "mem_writes c pid =
     (let p = getCgroupPath c pid
      in if cgroup_mem_max c = 0 \<and> sint (derived_swap_max c) < 0 then []
         else [(p @ ''/cgroup.procs'', to_string pid)] @
              (if cgroup_mem_max c > 0
               then [(p @ ''/memory.max'', to_string (uint (cgroup_mem_max c)))] else []) @
              (if sint (derived_swap_max c) \<ge> 0
               then [(p @ ''/memory.swap.max'', to_string (sint (derived_swap_max c)))] else []))"

definition pids_writes :: "nsjconf_t \<Rightarrow> pid_t \<Rightarrow> (string \<times> string) list" where
  "pids_writes c pid =
     (let p = getCgroupPath c pid
      in if cgroup_pids_max c = 0 then []
         else [(p @ ''/cgroup.procs'', to_string pid),
               (p @ ''/pids.max'', to_string (uint (cgroup_pids_max c)))])"

definition cpu_writes :: "nsjconf_t \<Rightarrow> pid_t \<Rightarrow> (string \<times> string) list" where
  "cpu_writes c pid =
     (let p = getCgroupPath c pid
      in if cgroup_cpu_ms_per_sec c = 0 then []
         else [(p @ ''/cgroup.procs'', to_string pid),
               (p @ ''/cpu.max'', to_string (uint (cgroup_cpu_ms_per_sec c * 1000)) @ '' 1000000'')])"

text \<open>A list of events that holds diagnostic lines only.\<close>

definition only_logs :: "event list \<Rightarrow> bool" where
  "only_logs es = (\<forall>e\<in>set es. \<exists>l m. e = Log l m)"

text \<open>
  A list of events that holds, apart from diagnostic lines, only calls of \<open>fgets\<close> and
  \<open>fclose\<close> on the stream of \<open>path\<close>; and a list of operations on the two accounting
  files of the cgroup \<open>d\<close>, which reads both.
\<close>

definition reads_of :: "string \<Rightarrow> event list \<Rightarrow> bool" where
  "reads_of path es = (\<forall>e\<in>set es. (\<exists>l m. e = Log l m) \<or> e = Fgets path \<or> e = Fclose path)"

definition accounting_reads :: "string \<Rightarrow> event list \<Rightarrow> bool" where
  "accounting_reads d es =
     (set es \<subseteq> {Fopen (d @ ''/memory.peak''), Fgets (d @ ''/memory.peak''), Fclose (d @ ''/memory.peak''),
                Fopen (d @ ''/cpu.stat''), Fgets (d @ ''/cpu.stat''), Fclose (d @ ''/cpu.stat'')} \<and>
      Fopen (d @ ''/memory.peak'') \<in> set es \<and> Fopen (d @ ''/cpu.stat'') \<in> set es)"

text \<open>
  More inputs for the examples: the registry record of child 42 (accounting descriptor
  7, CPU limit 600 seconds) and what \<open>wait4\<close> answers for it: the child is reaped, with
  exit code 3 in \<open>renv0\<close>, after 599.5 seconds in user mode and 0.5 seconds in system
  mode.
\<close>

definition rec0 :: pids_t where
  "rec0 = \<lparr>start = 1700000000, remote_txt = ''[STANDALONE MODE]'', pid_syscall_fd = 7,
            cpu_rl_cur = 600, cpu_rl_max = 600\<rparr>"

definition renv0 :: reap_env where
  "renv0 =
     \<lparr>w4_ret = 42, w4_status = 0x0300,
      w4_usage = \<lparr>ru_utime_sec = 599, ru_utime_usec = 500000,
                   ru_stime_sec = 0, ru_stime_usec = 500000\<rparr>,
      w4_errno = 0\<rparr>"

text \<open>
  The user plus system CPU time of \<open>usage\<close> in seconds, as an exact number. In the example
  \<open>renv_tick\<close>, child 42 is killed by \<open>SIGKILL\<close> after 0.000001 seconds in user mode and
  1.999999 seconds in system mode, and its record \<open>rec_tick\<close> holds a CPU limit of 2
  seconds.
\<close>

definition cpu_seconds :: "rusage \<Rightarrow> rat" where
  "cpu_seconds usage =
     of_int (sint (ru_utime_sec usage)) + of_int (sint (ru_utime_usec usage)) / 1000000 +
     (of_int (sint (ru_stime_sec usage)) + of_int (sint (ru_stime_usec usage)) / 1000000)"

text \<open>
  The unit roundoff of the doubles, and \<open>roundings k r x\<close>: \<open>r\<close> is within \<open>k\<close> roundings
  of the non-negative number \<open>x\<close>.
\<close>

definition unit_roundoff :: rat where
  "unit_roundoff = 1 / 2 ^ 53"

definition roundings :: "nat \<Rightarrow> rat \<Rightarrow> rat \<Rightarrow> bool" where
  "roundings k r x = (x * (1 - unit_roundoff) ^ k \<le> r \<and> r \<le> x * (1 + unit_roundoff) ^ k)"

definition renv_tick :: reap_env where
  "renv_tick =
     \<lparr>w4_ret = 42, w4_status = 9,
      w4_usage = \<lparr>ru_utime_sec = 0, ru_utime_usec = 1,
                   ru_stime_sec = 1, ru_stime_usec = 999999\<rparr>,
      w4_errno = 0\<rparr>"

definition rec_tick :: pids_t where
  "rec_tick = rec0\<lparr>cpu_rl_cur := 2, cpu_rl_max := 2\<rparr>"


text \<open>
  Two worlds have the \<open>same_fs\<close> when they differ at most in \<open>errno\<close> and in the trace.
  \<open>sim f\<close>: whether \<open>f\<close> succeeds does not depend on \<open>errno\<close> or on the trace.
  \<open>cgroup_init_ok\<close> is the cgroup step of \<open>initParent\<close> (the v2 driver, or the answer of
  the v1 driver).
\<close>

definition same_fs :: "world \<Rightarrow> world \<Rightarrow> bool" where
  "same_fs w w' =
     (dirs w' = dirs w \<and> files w' = files w \<and> cg_root w' = cg_root w \<and>
      subtree w' = subtree w \<and> mkdir_err w' = mkdir_err w \<and> rmdir_err w' = rmdir_err w \<and>
      open_err w' = open_err w \<and> read_err w' = read_err w \<and> write_errs w' = write_errs w \<and>
      strtoll_einval w' = strtoll_einval w \<and> self_pid w' = self_pid w)"

definition sim :: "(world \<Rightarrow> bool \<times> world) \<Rightarrow> bool" where
  "sim f = (\<forall>w w'. same_fs w w' \<longrightarrow> fst (f w') = fst (f w) \<and> same_fs (snd (f w)) (snd (f w')))"

definition cgroup_init_ok :: "env \<Rightarrow> nsjconf_t \<Rightarrow> pid_t \<Rightarrow> world \<Rightarrow> bool" where
  "cgroup_init_ok e c pid w =
     (if use_cgroupv2 c then fst (initNsFromParent c pid w) else cgroup_v1_init_ok e)"

text \<open>
  An input for the examples: a spawn in which every collaborator succeeds and the kernel
  clones child 42.
\<close>

definition env0 :: env where
  "env0 =
     \<lparr>limitConns_ok = True, unshare_ok = True, newProc_execs = True, socketpair_ok = True,
      child_fd = 5, parent_fd = 6, have_clone3 = True, k_clone3 = (\<lambda>_. (42, 0)),
      k_clone = (\<lambda>_. (42, 0)), time_now = 1700000000, conn_txt = ''[STANDALONE MODE]'',
      syscall_fd = 7, net_init_ok = True, cgroup_v1_init_ok = True, user_init_ok = True,
      writeToFd_ok = True, rcv_char = None\<rparr>"

text \<open>
  The inputs the accounting parser does not accept, by the parts \<open>strtoll\<close> splits an
  input into: no digit after the optional white space and sign (this covers an empty
  input), something other than white space after the digits, a number out of the range of
  \<open>long long\<close>, a negative number.
\<close>

definition no_digits :: "string \<Rightarrow> bool" where
  "no_digits s = (digits_of s = [])"

definition trailing_garbage :: "string \<Rightarrow> bool" where
  "trailing_garbage s = (digits_of s \<noteq> [] \<and> dropWhile isspace (after_digits s) \<noteq> [])"

definition out_of_range :: "string \<Rightarrow> bool" where
  "out_of_range s = (digits_of s \<noteq> [] \<and> (number_of s > LLONG_MAX \<or> number_of s < LLONG_MIN))"

definition negative :: "string \<Rightarrow> bool" where
  "negative s = (digits_of s \<noteq> [] \<and> number_of s < 0)"

definition nonconformant :: "string \<Rightarrow> bool" where
  "nonconformant s = (no_digits s \<or> trailing_garbage s \<or> out_of_range s \<or> negative s)"

text \<open>
  An input for the examples: the cgroup of child 42 with a \<open>memory.peak\<close> that holds
  \<open>abc\<close> and a \<open>cpu.stat\<close> whose only line gives \<open>user_usec\<close> as \<open>2^63\<close>, one more than
  the largest \<open>long long\<close>.
\<close>

definition world_stat :: world where
  "world_stat =
     world0\<lparr>dirs := {''/sys/fs/cgroup/NSJAIL.42''},
            files := [''/sys/fs/cgroup/NSJAIL.42/memory.peak'' \<mapsto> ''abc'' @ [CHR 0x0A],
                      ''/sys/fs/cgroup/NSJAIL.42/cpu.stat'' \<mapsto>
                        ''user_usec 9223372036854775808'' @ [CHR 0x0A]]\<rparr>"

text \<open>
  For \<open>cgroup2::setup\<close>: \<open>controllers_listed\<close> is its test \<open>subtree_ok\<close> on the buffer,
  \<open>enable_needed\<close> the block it runs when the test fails, and \<open>needed_writes\<close> the writes
  to \<open>cgroup.subtree_control\<close> that enable every needed controller, in the order of
  the source.
\<close>

definition controllers_listed :: "nsjconf_t \<Rightarrow> string \<Rightarrow> bool" where
  "controllers_listed c buf =
     ((\<not> needMemoryController c \<or> strstr buf ''memory'') \<and>
      (\<not> needPidsController c \<or> strstr buf ''pids'') \<and>
      (\<not> needCpuController c \<or> strstr buf ''cpu''))"

definition enable_needed :: "nsjconf_t \<Rightarrow> world \<Rightarrow> bool \<times> world" where
  "enable_needed c w1 =
     RETURN_ON_FAILURE
       (if needMemoryController c
        then enableCgroupSubtree c ''memory'' (self_pid w1) w1 else (True, w1)) (\<lambda>w2.
     RETURN_ON_FAILURE
       (if needPidsController c
        then enableCgroupSubtree c ''pids'' (self_pid w2) w2 else (True, w2)) (\<lambda>w3.
     RETURN_ON_FAILURE
       (if needCpuController c
        then enableCgroupSubtree c ''cpu'' (self_pid w3) w3 else (True, w3)) (\<lambda>w4.
     (True, w4))))"

definition needed_writes :: "nsjconf_t \<Rightarrow> (string \<times> string) list" where
  "needed_writes c =
     (let p = cgroupv2_mount c @ ''/cgroup.subtree_control''
      in (if needMemoryController c then [(p, ''+memory'')] else []) @
         (if needPidsController c then [(p, ''+pids'')] else []) @
         (if needCpuController c then [(p, ''+cpu'')] else []))"

text \<open>
  The contents of \<open>cgroup.subtree_control\<close> fit the buffer of \<open>setup\<close> (63 bytes and the
  final NUL) and hold no NUL byte; a file can be opened and read; and a world \<open>grows\<close>
  into another when the hierarchy is mounted at the same place, no controller has been
  disabled and the same reads fail.
\<close>

definition subtree_fits :: "world \<Rightarrow> bool" where
  "subtree_fits w =
     (length (render_subtree (subtree w)) \<le> 63 \<and> CHR 0x00 \<notin> set (render_subtree (subtree w)))"

definition readable :: "world \<Rightarrow> string \<Rightarrow> string \<Rightarrow> bool" where
  "readable w p content = (file_content w p = Some content \<and> open_err w p = 0 \<and> \<not> read_err w p)"

definition grows :: "world \<Rightarrow> world \<Rightarrow> bool" where
  "grows w w' =
     (cg_root w' = cg_root w \<and> set (subtree w) \<subseteq> set (subtree w') \<and>
      open_err w' = open_err w \<and> read_err w' = read_err w)"

text \<open>
  Inputs for the examples: a configuration that needs the memory and the pids
  controllers, and a world in which only the memory controller is enabled.
\<close>

definition conf_mp :: nsjconf_t where
  "conf_mp = conf0\<lparr>cgroup_mem_max := 100, cgroup_pids_max := 10\<rparr>"

definition world_mem :: world where
  "world_mem = world0\<lparr>subtree := [''memory'']\<rparr>"

section \<open>Properties of the per-child cgroup initialisation\<close>

lemma writes_of_append [simp]: "writes_of (a @ b) = writes_of a @ writes_of b"
  by (simp add: writes_of_def map_filter_def)

lemma writes_of_simps [simp]:
  "writes_of [] = []"
  "writes_of (WriteFile q d # es) = (q, d) # writes_of es"
  "writes_of (Log l m # es) = writes_of es"
  "writes_of (Mkdir q # es) = writes_of es"
  by (simp_all add: writes_of_def map_filter_def)

lemma healthy_logw [simp]: "healthy (logw l m w) = healthy w"
  by (simp add: healthy_def logw_def ev_def)

lemma ok_write:
  assumes "healthy w"
  shows "ok_step (writeBufToFile p d l w) w [(p, d)]"
  using assms
  by (auto simp: ok_step_def writeBufToFile_def healthy_def Let_def ev_def store_def
      subtree_control_path_def split: list.splits)

lemma ok_createCgroup:
  assumes "healthy w"
  shows "ok_step (createCgroup p pid w) w [] \<and> p \<in> dirs (snd (createCgroup p pid w))"
  using assms
  by (auto simp: ok_step_def createCgroup_def sys_mkdir_def healthy_def Let_def ev_def logw_def)

lemma ok_addPid:
  assumes "healthy w"
  shows "ok_step (addPidToProcList p pid w) w [(p @ ''/cgroup.procs'', to_string pid)]"
proof -
  have "healthy (logw LD ''Adding pid to cgroup.procs'' w)"
    using assms by simp
  from ok_write[OF this, of "p @ ''/cgroup.procs''" "to_string pid" True]
  show ?thesis
    by (auto simp: ok_step_def addPidToProcList_def Let_def logw_def ev_def split: prod.splits)
qed

lemma ok_writeToCgroup:
  assumes "healthy w"
  shows "ok_step (writeToCgroup p r v w) w [(p @ ''/'' @ r, v)]"
proof -
  have "healthy (logw LI ''Setting resource'' w)"
    using assms by simp
  from ok_write[OF this, of "p @ ''/'' @ r" v True]
  show ?thesis
    by (auto simp: ok_step_def writeToCgroup_def Let_def logw_def ev_def split: prod.splits)
qed

lemma oks_rof:
  "oks f a \<Longrightarrow> oks k b \<Longrightarrow> c = a @ b \<Longrightarrow> oks (\<lambda>w. RETURN_ON_FAILURE (f w) k) c"
  by (auto simp: oks_def ok_step_def RETURN_ON_FAILURE_def)

lemma oks_if: "oks f a \<Longrightarrow> oks g a \<Longrightarrow> oks (\<lambda>w. if b then f w else g w) a"
  by (simp add: oks_def)

lemma oks_True: "oks (\<lambda>w. (True, w)) []"
  by (simp add: oks_def ok_step_def)

lemma oks_createCgroup: "oks (createCgroup p pid) []"
  using ok_createCgroup by (simp add: oks_def)

lemma oks_addPid: "oks (addPidToProcList p pid) [(p @ ''/cgroup.procs'', to_string pid)]"
  using ok_addPid by (simp add: oks_def)

lemma oks_writeToCgroup: "oks (writeToCgroup p r v) [(p @ ''/'' @ r, v)]"
  using ok_writeToCgroup by (simp add: oks_def)

lemma oks_initMem: "oks (initNsFromParentMem c pid) (mem_writes c pid)"
  unfolding initNsFromParentMem_def mem_writes_def derived_swap_max_def Let_def
  by (auto intro!: oks_rof oks_createCgroup oks_addPid oks_writeToCgroup oks_True oks_if)

lemma oks_initPids: "oks (initNsFromParentPids c pid) (pids_writes c pid)"
  unfolding initNsFromParentPids_def pids_writes_def Let_def
  by (auto intro!: oks_rof oks_createCgroup oks_addPid oks_writeToCgroup oks_True oks_if)

lemma oks_initCpu: "oks (initNsFromParentCpu c pid) (cpu_writes c pid)"
  unfolding initNsFromParentCpu_def cpu_writes_def Let_def
  by (auto intro!: oks_rof oks_createCgroup oks_addPid oks_writeToCgroup oks_True oks_if)

lemma oks_init:
  "oks (initNsFromParent c pid) (mem_writes c pid @ pids_writes c pid @ cpu_writes c pid)"
  unfolding initNsFromParent_def
  by (rule oks_rof[OF oks_initMem oks_rof[OF oks_initPids oks_initCpu]]) simp_all

lemma init_written_to:
  assumes "healthy w"
  shows "fst (initNsFromParent c pid w) \<and>
         written_to p (snd (initNsFromParent c pid w)) =
           written_to p w @
           map snd (filter (\<lambda>qd. fst qd = p) (mem_writes c pid @ pids_writes c pid @ cpu_writes c pid))"
  using oks_init[of c pid] assms by (simp add: oks_def ok_step_def written_to_def)

lemma to_string_small: "to_string 50 = ''50''" "to_string 100 = ''100''" "to_string 0 = ''0''"
  by (simp_all add: to_string_def dec_nat.simps)

text \<open>
  Claim C2, as amended. In a world where no \<open>mkdir\<close> and no write fails, for every
  child: with \<open>cgroup_mem_max = 100\<close> and \<open>cgroup_mem_memsw_max = 150\<close> the per-child
  initialisation writes \<open>100\<close> to \<open>memory.max\<close> and \<open>50\<close> to \<open>memory.swap.max\<close>; with
  \<open>cgroup_mem_max = 0\<close>, \<open>cgroup_mem_memsw_max = 0\<close> and a negative (unset)
  \<open>cgroup_mem_swap_max\<close> it writes neither file; with \<open>cgroup_mem_swap_max = 0\<close> instead it
  does not write \<open>memory.max\<close> and writes \<open>0\<close> to \<open>memory.swap.max\<close>.
\<close>

theorem swap_max_derivation:
  assumes "healthy w"
  shows
    "(cgroup_mem_max c = 100 \<and> cgroup_mem_memsw_max c = 150 \<longrightarrow>
        fst (initNsFromParent c pid w) \<and>
        written_to (getCgroupPath c pid @ ''/memory.max'') (snd (initNsFromParent c pid w)) =
          written_to (getCgroupPath c pid @ ''/memory.max'') w @ [''100''] \<and>
        written_to (getCgroupPath c pid @ ''/memory.swap.max'') (snd (initNsFromParent c pid w)) =
          written_to (getCgroupPath c pid @ ''/memory.swap.max'') w @ [''50'']) \<and>
     (cgroup_mem_max c = 0 \<and> cgroup_mem_memsw_max c = 0 \<and> sint (cgroup_mem_swap_max c) < 0 \<longrightarrow>
        fst (initNsFromParent c pid w) \<and>
        written_to (getCgroupPath c pid @ ''/memory.max'') (snd (initNsFromParent c pid w)) =
          written_to (getCgroupPath c pid @ ''/memory.max'') w \<and>
        written_to (getCgroupPath c pid @ ''/memory.swap.max'') (snd (initNsFromParent c pid w)) =
          written_to (getCgroupPath c pid @ ''/memory.swap.max'') w) \<and>
     (cgroup_mem_max c = 0 \<and> cgroup_mem_memsw_max c = 0 \<and> cgroup_mem_swap_max c = 0 \<longrightarrow>
        fst (initNsFromParent c pid w) \<and>
        written_to (getCgroupPath c pid @ ''/memory.max'') (snd (initNsFromParent c pid w)) =
          written_to (getCgroupPath c pid @ ''/memory.max'') w \<and>
        written_to (getCgroupPath c pid @ ''/memory.swap.max'') (snd (initNsFromParent c pid w)) =
          written_to (getCgroupPath c pid @ ''/memory.swap.max'') w @ [''0''])"
  by (simp add: init_written_to[OF assms] mem_writes_def pids_writes_def cpu_writes_def
      derived_swap_max_def Let_def to_string_small)

text \<open>
  Claim C2 as stated fails: with \<open>cgroup_mem_max = 0\<close>, \<open>cgroup_mem_memsw_max = 0\<close> and
  \<open>cgroup_mem_swap_max = 0\<close> the initialisation of child 42 writes \<open>0\<close> to
  \<open>memory.swap.max\<close>.
\<close>

theorem swap_max_zero_written:
  "written_to ''/sys/fs/cgroup/NSJAIL.42/memory.swap.max''
     (snd (initNsFromParent (conf0\<lparr>cgroup_mem_max := 0, cgroup_mem_memsw_max := 0, cgroup_mem_swap_max := 0\<rparr>) 42 world0))
   = [''0'']"
  by (simp add: initNsFromParent_def initNsFromParentMem_def initNsFromParentPids_def
      initNsFromParentCpu_def RETURN_ON_FAILURE_def createCgroup_def addPidToProcList_def
      writeToCgroup_def writeBufToFile_def sys_mkdir_def getCgroupPath_def store_def
      subtree_control_path_def logw_def ev_def to_string_def dec_nat.simps Let_def EEXIST_def
      written_to_def conf0_def world0_def)

theorem swap_max_derivation_witness:
  "healthy world0 \<and>
   written_to ''/sys/fs/cgroup/NSJAIL.42/memory.swap.max''
     (snd (initNsFromParent (conf0\<lparr>cgroup_mem_max := 100, cgroup_mem_memsw_max := 150\<rparr>) 42 world0)) = [''50''] \<and>
   written_to ''/sys/fs/cgroup/NSJAIL.42/memory.swap.max''
     (snd (initNsFromParent conf0 42 world0)) = [] \<and>
   written_to ''/sys/fs/cgroup/NSJAIL.42/memory.max''
     (snd (initNsFromParent conf0 42 world0)) = [] \<and>
   written_to ''/sys/fs/cgroup/NSJAIL.42/memory.swap.max''
     (snd (initNsFromParent (conf0\<lparr>cgroup_mem_swap_max := 0\<rparr>) 42 world0)) = [''0'']"
proof -
  have h: "healthy world0"
    by (simp add: healthy_def world0_def)
  have p: "getCgroupPath (conf0\<lparr>cgroup_mem_max := 100, cgroup_mem_memsw_max := 150\<rparr>) 42 = ''/sys/fs/cgroup/NSJAIL.42''"
    "getCgroupPath conf0 42 = ''/sys/fs/cgroup/NSJAIL.42''"
    "getCgroupPath (conf0\<lparr>cgroup_mem_swap_max := 0\<rparr>) 42 = ''/sys/fs/cgroup/NSJAIL.42''"
    by (simp_all add: getCgroupPath_def conf0_def to_string_def dec_nat.simps)
  have t: "written_to q world0 = []" for q
    by (simp add: written_to_def world0_def)
  have a: "cgroup_mem_max conf0 = 0" "cgroup_mem_memsw_max conf0 = 0"
    "sint (cgroup_mem_swap_max conf0) < 0"
    by (simp_all add: conf0_def)
  have 1: "written_to ''/sys/fs/cgroup/NSJAIL.42/memory.swap.max''
     (snd (initNsFromParent (conf0\<lparr>cgroup_mem_max := 100, cgroup_mem_memsw_max := 150\<rparr>) 42 world0)) = [''50'']"
    using swap_max_derivation[OF h, of "conf0\<lparr>cgroup_mem_max := 100, cgroup_mem_memsw_max := 150\<rparr>" 42]
    by (simp add: p t)
  have 2: "written_to ''/sys/fs/cgroup/NSJAIL.42/memory.swap.max''
     (snd (initNsFromParent conf0 42 world0)) = [] \<and>
   written_to ''/sys/fs/cgroup/NSJAIL.42/memory.max''
     (snd (initNsFromParent conf0 42 world0)) = []"
    using swap_max_derivation[OF h, of conf0 42] a by (simp add: p t)
  have 3: "written_to ''/sys/fs/cgroup/NSJAIL.42/memory.swap.max''
     (snd (initNsFromParent (conf0\<lparr>cgroup_mem_swap_max := 0\<rparr>) 42 world0)) = [''0'']"
    using swap_max_derivation[OF h, of "conf0\<lparr>cgroup_mem_swap_max := 0\<rparr>" 42] a by (simp add: p t)
  show ?thesis
    using h 1 2 3 by simp
qed

section \<open>Properties of the teardown and of the reaper\<close>

lemma only_logs_simps [simp]:
  "only_logs []" "only_logs (Log l m # es) = only_logs es"
  "only_logs (a @ b) = (only_logs a \<and> only_logs b)"
  by (auto simp: only_logs_def)

lemma effects_append [simp]: "effects (a @ b) = effects a @ effects b"
  by (simp add: effects_def)

lemma reports_append [simp]: "reports (a @ b) = reports a @ reports b"
  by (simp add: reports_def map_filter_def)

lemma effects_only_logs [simp]: "only_logs es \<Longrightarrow> effects es = []"
  by (induction es) (auto simp: effects_def only_logs_def)

lemma reports_only_logs [simp]: "only_logs es \<Longrightarrow> reports es = []"
  by (induction es) (auto simp: reports_def only_logs_def map_filter_def)

lemma effects_simps [simp]:
  "effects [] = []"
  "effects (Log l m # es) = effects es"
  "effects (Stats t p u s # es) = effects es"
  "effects (Report q d # es) = effects es"
  "effects (Fopen f # es) = Fopen f # effects es"
  "effects (Fgets f # es) = Fgets f # effects es"
  "effects (Fclose f # es) = Fclose f # effects es"
  "effects (Rmdir f # es) = Rmdir f # effects es"
  "effects (CloseFd fd # es) = CloseFd fd # effects es"
  "effects (Erase q # es) = Erase q # effects es"
  "effects (V1Finish q # es) = V1Finish q # effects es"
  by (simp_all add: effects_def)

lemma reports_simps [simp]:
  "reports [] = []"
  "reports (Log l m # es) = reports es"
  "reports (Stats t p u s # es) = reports es"
  "reports (Report q d # es) = (q, d) # reports es"
  "reports (Fopen f # es) = reports es"
  "reports (Fgets f # es) = reports es"
  "reports (Fclose f # es) = reports es"
  "reports (Rmdir f # es) = reports es"
  "reports (CloseFd fd # es) = reports es"
  "reports (Erase q # es) = reports es"
  "reports (V1Finish q # es) = reports es"
  by (simp_all add: reports_def map_filter_def)

lemma reads_of_simps [simp]:
  "reads_of p []" "reads_of p (Log l m # es) = reads_of p es"
  "reads_of p (Fgets p # es) = reads_of p es" "reads_of p (Fclose p # es) = reads_of p es"
  "reads_of p (a @ b) = (reads_of p a \<and> reads_of p b)"
  by (auto simp: reads_of_def)

lemma only_logs_reads_of: "only_logs es \<Longrightarrow> reads_of p es"
  by (auto simp: only_logs_def reads_of_def)

lemma reports_reads_of [simp]: "reads_of p es \<Longrightarrow> reports es = []"
  by (induction es) (auto simp: reads_of_def)

lemma effects_reads_of: "reads_of p es \<Longrightarrow> set (effects es) \<subseteq> {Fgets p, Fclose p}"
  by (induction es) (auto simp: reads_of_def)

lemma parse_ll_only_logs: "parse_ll a b c d = (v, ls) \<Longrightarrow> only_logs ls"
  by (auto simp: parse_ll_def Let_def split: prod.splits option.splits if_splits)

lemma cpu_stat_line_only_logs: "cpu_stat_line e l u s = (u', s', ls) \<Longrightarrow> only_logs ls"
  by (auto simp: cpu_stat_line_def Let_def split: prod.splits if_splits dest: parse_ll_only_logs)

lemma scan_reads_of:
  "reads_of p logs \<Longrightarrow> scan_cpu_stat p e c u s logs = (u', s', ls) \<Longrightarrow> reads_of p ls"
proof (induction p e c u s logs rule: scan_cpu_stat.induct)
  case (1 path einval content user_usec system_usec logs)
  obtain a b l where r: "cpu_stat_line einval (c_str (fgets_line 256 content)) user_usec system_usec = (a, b, l)"
    by (cases "cpu_stat_line einval (c_str (fgets_line 256 content)) user_usec system_usec") auto
  then have l: "reads_of path l"
    by (intro only_logs_reads_of) (rule cpu_stat_line_only_logs)
  show ?case
  proof (cases "content = []")
    case True
    then show ?thesis
      using "1.prems" by (auto simp: scan_cpu_stat.simps)
  next
    case False
    show ?thesis
    proof (cases "a \<noteq> - 1 \<and> b \<noteq> - 1")
      case True
      then show ?thesis
        using "1.prems" False r l by (auto simp: scan_cpu_stat.simps Let_def)
    next
      case stop: False
      have "scan_cpu_stat path einval (fgets_rest 256 content) a b (logs @ Fgets path # l) = (u', s', ls)"
        using "1.prems"(2) False r stop by (subst (asm) scan_cpu_stat.simps) (simp add: Let_def)
      moreover have "reads_of path (logs @ Fgets path # l)"
        using "1.prems"(1) l by simp
      ultimately show ?thesis
        using "1.IH"[OF False refl refl refl refl] r stop by (simp add: Let_def)
    qed
  qed
qed

lemma read_memory_peak_trace:
  "\<exists>ls. reads_of (p @ ''/memory.peak'') ls \<and>
        trace (snd (read_memory_peak p w)) = trace w @ Fopen (p @ ''/memory.peak'') # ls"
  by (auto simp: read_memory_peak_def sys_fopen_def Let_def ev_def evs_def logw_def
      split: prod.splits option.splits sum.splits if_splits
      dest!: parse_ll_only_logs only_logs_reads_of[where p = "p @ ''/memory.peak''"])

lemma read_cpu_stat_trace:
  "\<exists>ls. reads_of (p @ ''/cpu.stat'') ls \<and>
        trace (snd (read_cpu_stat p w)) = trace w @ Fopen (p @ ''/cpu.stat'') # ls"
  by (auto simp: read_cpu_stat_def sys_fopen_def Let_def ev_def evs_def logw_def
      split: prod.splits option.splits sum.splits if_splits dest: scan_reads_of[rotated])

lemma removeCgroup_effects:
  "\<exists>rs. accounting_reads p rs \<and>
        effects (trace (removeCgroup p w)) = effects (trace w) @ rs @ [Rmdir p]"
proof -
  obtain l1 where 1: "reads_of (p @ ''/memory.peak'') l1"
      "trace (snd (read_memory_peak p w)) = trace w @ Fopen (p @ ''/memory.peak'') # l1"
    using read_memory_peak_trace by blast
  obtain l2 where 2: "reads_of (p @ ''/cpu.stat'') l2"
      "trace (snd (read_cpu_stat p (snd (read_memory_peak p w)))) =
         trace (snd (read_memory_peak p w)) @ Fopen (p @ ''/cpu.stat'') # l2"
    using read_cpu_stat_trace by blast
  let ?rs = "Fopen (p @ ''/memory.peak'') # effects l1 @ Fopen (p @ ''/cpu.stat'') # effects l2"
  have "accounting_reads p ?rs"
    using effects_reads_of[OF 1(1)] effects_reads_of[OF 2(1)]
    by (auto simp: accounting_reads_def)
  moreover have "effects (trace (removeCgroup p w)) = effects (trace w) @ ?rs @ [Rmdir p]"
    using 1 2
    by (auto simp: removeCgroup_def sys_rmdir_def Let_def ev_def logw_def split: prod.splits)
  ultimately show ?thesis
    by blast
qed

lemma removeCgroup_reports: "reports (trace (removeCgroup p w)) = reports (trace w)"
proof -
  obtain l1 where 1: "reads_of (p @ ''/memory.peak'') l1"
      "trace (snd (read_memory_peak p w)) = trace w @ Fopen (p @ ''/memory.peak'') # l1"
    using read_memory_peak_trace by blast
  obtain l2 where 2: "reads_of (p @ ''/cpu.stat'') l2"
      "trace (snd (read_cpu_stat p (snd (read_memory_peak p w)))) =
         trace (snd (read_memory_peak p w)) @ Fopen (p @ ''/cpu.stat'') # l2"
    using read_cpu_stat_trace by blast
  show ?thesis
    using 1 2
    by (auto simp: removeCgroup_def sys_rmdir_def Let_def ev_def logw_def split: prod.splits)
qed

lemma finish_effects_none:
  assumes "cgroup_mem_max c = 0" and "cgroup_pids_max c = 0" and "cgroup_cpu_ms_per_sec c = 0"
  shows "finishFromParent c pid w = w"
  using assms by (simp add: finishFromParent_def)

lemma finish_effects:
  assumes "cgroup_mem_max c \<noteq> 0 \<or> cgroup_pids_max c \<noteq> 0 \<or> cgroup_cpu_ms_per_sec c \<noteq> 0"
  shows "\<exists>rs. accounting_reads (getCgroupPath c pid) rs \<and>
           effects (trace (finishFromParent c pid w)) =
             effects (trace w) @ rs @ [Rmdir (getCgroupPath c pid)]"
  using assms removeCgroup_effects[of "getCgroupPath c pid" w]
  by (simp add: finishFromParent_def)

lemma finish_reports: "reports (trace (finishFromParent c pid w)) = reports (trace w)"
  by (simp add: finishFromParent_def removeCgroup_reports)

lemma signaled_not_exited: "WIFSIGNALED s \<Longrightarrow> \<not> WIFEXITED s"
proof
  assume a: "WIFSIGNALED s" and "WIFEXITED s"
  then have "s AND 0x7f = 0"
    by (simp add: WIFEXITED_def WTERMSIG_def uint_0_iff)
  with a show False
    by (simp add: WIFSIGNALED_def)
qed

lemma removeProc_pids: "pids (fst (removeProc c pid w)) = (pids c)(pid := None)"
  by (auto simp: removeProc_def Let_def split: option.splits)

lemma removeProc_trace:
  "pids c pid = Some p \<Longrightarrow>
   effects (trace (snd (removeProc c pid w))) = effects (trace w) @ [CloseFd (pid_syscall_fd p), Erase pid] \<and>
   reports (trace (snd (removeProc c pid w))) = reports (trace w)"
  by (simp add: removeProc_def Let_def ev_def logw_def)

lemma removeProc_reports:
  "reports (trace (snd (removeProc c pid w))) = reports (trace w)"
  by (simp add: removeProc_def Let_def ev_def logw_def split: option.splits)

lemma st_exit: "WIFEXITED (0x0300 :: 32 word)" "WEXITSTATUS (0x0300 :: 32 word) = 3"
  by (simp_all add: WIFEXITED_def WTERMSIG_def WEXITSTATUS_def)

lemma st_kill: "WIFSIGNALED (9 :: 32 word)" "WTERMSIG (9 :: 32 word) = 9"
  by (simp_all add: WIFSIGNALED_def WTERMSIG_def)

lemma floor_numeral_frac:
  "\<lfloor>numeral a / numeral b :: rat\<rfloor> = numeral a div numeral b"
  using floor_divide_of_int_eq[of "numeral a" "numeral b", where ?'a = rat] by simp

lemma scale_up_step:
  "0 < n \<Longrightarrow> scale_up n x s = (if x < 2 ^ 52 then scale_up (n - 1) (2 * x) (2 * s) else (x, s))"
  by (cases n) simp_all

lemma scale_down_step:
  "0 < n \<Longrightarrow> scale_down n x s = (if 2 ^ 53 \<le> x then scale_down (n - 1) (x / 2) (2 * s) else (x, s))"
  by (cases n) simp_all

lemmas fp_eval = to_double_def scale_up_step scale_down_step round_half_even_def Let_def
  floor_numeral_frac

lemma round_half_even_err: "\<bar>of_int (round_half_even y) - y\<bar> \<le> 1 / 2"
proof -
  have "of_int \<lfloor>y\<rfloor> \<le> y" "y < of_int \<lfloor>y\<rfloor> + 1"
    by linarith+
  then show ?thesis
    by (auto simp: round_half_even_def Let_def abs_le_iff)
qed

lemma round_half_even_of_int [simp]: "round_half_even (of_int m) = m"
  by (simp add: round_half_even_def)

lemma scale_up_spec:
  "scale_up n x s = (y, t) \<Longrightarrow> \<exists>k\<le>n. y = x * 2 ^ k \<and> t = s * 2 ^ k \<and> (2 ^ 52 \<le> y \<or> k = n)"
proof (induction n arbitrary: x s)
  case 0
  then show ?case by simp
next
  case (Suc n)
  show ?case
  proof (cases "x < 2 ^ 52")
    case True
    with Suc.prems have "scale_up n (2 * x) (2 * s) = (y, t)"
      by simp
    from Suc.IH[OF this] obtain k where "k \<le> n" "y = 2 * x * 2 ^ k" "t = 2 * s * 2 ^ k"
      "2 ^ 52 \<le> y \<or> k = n"
      by blast
    then show ?thesis
      by (intro exI[of _ "Suc k"]) auto
  next
    case False
    with Suc.prems show ?thesis
      by (intro exI[of _ 0]) auto
  qed
qed

lemma scale_down_spec:
  "scale_down n x s = (y, t) \<Longrightarrow> 2 ^ 52 \<le> x \<Longrightarrow>
   \<exists>k\<le>n. y = x / 2 ^ k \<and> t = s * 2 ^ k \<and> 2 ^ 52 \<le> y"
proof (induction n arbitrary: x s)
  case 0
  then show ?case by simp
next
  case (Suc n)
  show ?case
  proof (cases "2 ^ 53 \<le> x")
    case True
    with Suc.prems have "scale_down n (x / 2) (2 * s) = (y, t)"
      by simp
    moreover have "2 ^ 52 \<le> x / 2"
      using True by simp
    ultimately obtain k where "k \<le> n" "y = x / 2 / 2 ^ k" "t = 2 * s * 2 ^ k" "2 ^ 52 \<le> y"
      using Suc.IH by blast
    then show ?thesis
      by (intro exI[of _ "Suc k"]) auto
  next
    case False
    with Suc.prems show ?thesis
      by (intro exI[of _ 0]) auto
  qed
qed

lemma to_double_0 [simp]: "to_double 0 = 0"
  by (auto simp: to_double_def split: prod.splits)

lemma to_double_near:
  assumes "1 / 2 ^ 1022 \<le> x"
  shows "\<bar>to_double x - x\<bar> \<le> x * unit_roundoff"
proof -
  have pos: "0 < x"
    using assms by (rule less_le_trans[rotated]) simp
  show ?thesis
  proof (cases "x < 2 ^ 52")
    case True
    obtain y t where yt: "scale_up 1074 x 1 = (y, t)"
      by (cases "scale_up 1074 x 1") auto
    from scale_up_spec[OF this] obtain k where k: "k \<le> 1074" "y = x * 2 ^ k" "t = 2 ^ k"
      "2 ^ 52 \<le> y \<or> k = 1074"
      by auto
    have big: "2 ^ 52 \<le> y"
    proof (cases "k = 1074")
      case True
      have "(2::rat) ^ 52 = 1 / 2 ^ 1022 * 2 ^ 1074"
        by simp
      also have "\<dots> \<le> x * 2 ^ 1074"
        using assms by (intro mult_right_mono) simp_all
      finally show ?thesis
        using k(2) True by simp
    next
      case False
      with k(4) show ?thesis by simp
    qed
    have t: "0 < t"
      using k(3) by simp
    have r: "to_double x = of_int (round_half_even y) / t"
      using True pos yt by (simp add: to_double_def)
    have x: "x = y / t"
      using k(2,3) by simp
    have "to_double x - x = (of_int (round_half_even y) - y) / t"
      using r x by (simp add: diff_divide_distrib)
    then have "\<bar>to_double x - x\<bar> = \<bar>of_int (round_half_even y) - y\<bar> / t"
      using t by (simp add: abs_divide)
    also have "\<dots> \<le> (1 / 2) / t"
      using t round_half_even_err[of y] by (intro divide_right_mono) simp_all
    also have "\<dots> \<le> (y * unit_roundoff) / t"
      using t big by (intro divide_right_mono) (simp_all add: unit_roundoff_def)
    also have "\<dots> = x * unit_roundoff"
      unfolding x by simp
    finally show ?thesis .
  next
    case False
    then have ge: "2 ^ 52 \<le> x"
      by simp
    obtain y t where yt: "scale_down 971 x 1 = (y, t)"
      by (cases "scale_down 971 x 1") auto
    from scale_down_spec[OF this ge] obtain k where k: "y = x / 2 ^ k" "t = 2 ^ k" "2 ^ 52 \<le> y"
      by auto
    have t: "0 < t"
      using k(2) by simp
    have r: "to_double x = of_int (round_half_even y) * t"
      using False pos yt by (simp add: to_double_def)
    have x: "x = y * t"
      using k(1,2) by simp
    have "to_double x - x = (of_int (round_half_even y) - y) * t"
      using r x by (simp add: left_diff_distrib)
    then have "\<bar>to_double x - x\<bar> = \<bar>of_int (round_half_even y) - y\<bar> * t"
      using t by (simp add: abs_mult)
    also have "\<dots> \<le> (1 / 2) * t"
      using t round_half_even_err[of y] by (intro mult_right_mono) simp_all
    also have "\<dots> \<le> (y * unit_roundoff) * t"
      using t k(3) by (intro mult_right_mono) (simp_all add: unit_roundoff_def)
    also have "\<dots> = x * unit_roundoff"
      unfolding x by simp
    finally show ?thesis .
  qed
qed

lemma unit_roundoff_bounds: "0 < unit_roundoff" "unit_roundoff \<le> 1 / 2"
  by (simp_all add: unit_roundoff_def)

lemma roundings_0: "roundings 0 x x"
  by (simp add: roundings_def)

lemma roundings_mono:
  assumes "0 \<le> x" and "j \<le> k" and "roundings j r x"
  shows "roundings k r x"
proof -
  have "(1 - unit_roundoff) ^ k \<le> (1 - unit_roundoff) ^ j"
    using unit_roundoff_bounds assms(2) by (intro power_decreasing) simp_all
  then have "x * (1 - unit_roundoff) ^ k \<le> x * (1 - unit_roundoff) ^ j"
    using assms(1) by (rule mult_left_mono)
  moreover have "(1 + unit_roundoff) ^ j \<le> (1 + unit_roundoff) ^ k"
    using unit_roundoff_bounds assms(2) by (intro power_increasing) simp_all
  then have "x * (1 + unit_roundoff) ^ j \<le> x * (1 + unit_roundoff) ^ k"
    using assms(1) by (rule mult_left_mono)
  ultimately show ?thesis
    using assms(3) by (simp add: roundings_def)
qed

lemma roundings_add: "roundings k a x \<Longrightarrow> roundings k b y \<Longrightarrow> roundings k (a + b) (x + y)"
  by (simp add: roundings_def distrib_right add_mono)

lemma roundings_div: "0 < c \<Longrightarrow> roundings k a x \<Longrightarrow> roundings k (a / c) (x / c)"
  by (simp add: roundings_def divide_right_mono pos_le_divide_eq pos_divide_le_eq mult.commute mult.left_commute)

lemma roundings_to_double:
  assumes "roundings k z x" and "x = 0 \<or> 1 / 1000000 \<le> x" and "k \<le> 4"
  shows "roundings (Suc k) (to_double z) x"
proof (cases "x = 0")
  case True
  with assms(1) have "z = 0"
    by (simp add: roundings_def)
  with True show ?thesis
    by (simp add: roundings_def)
next
  case False
  with assms(2) have x: "1 / 1000000 \<le> x"
    by simp
  have lo: "x * (1 - unit_roundoff) ^ k \<le> z" and hi: "z \<le> x * (1 + unit_roundoff) ^ k"
    using assms(1) by (simp_all add: roundings_def)
  have e: "(1 / 2 :: rat) ^ 4 = 1 / 16"
    by (simp add: power_one_over)
  have "(1 / 2 :: rat) ^ 4 \<le> (1 / 2) ^ k"
    using assms(3) by (intro power_decreasing) simp_all
  also have "\<dots> \<le> (1 - unit_roundoff) ^ k"
    using unit_roundoff_bounds by (intro power_mono) simp_all
  finally have p: "1 / 16 \<le> (1 - unit_roundoff) ^ k"
    unfolding e .
  have "(1 / 2 ^ 1022 :: rat) \<le> 1 / 1000000 * (1 / 16)"
    by simp
  also have "\<dots> \<le> x * (1 - unit_roundoff) ^ k"
    using x p by (intro mult_mono) simp_all
  finally have "1 / 2 ^ 1022 \<le> z"
    using lo by simp
  from to_double_near[OF this]
  have n: "z * (1 - unit_roundoff) \<le> to_double z" "to_double z \<le> z * (1 + unit_roundoff)"
    by (simp_all add: abs_le_iff algebra_simps)
  have "x * (1 - unit_roundoff) ^ Suc k = x * (1 - unit_roundoff) ^ k * (1 - unit_roundoff)"
    by simp
  also have "\<dots> \<le> z * (1 - unit_roundoff)"
    using lo unit_roundoff_bounds by (intro mult_right_mono) simp_all
  finally have 1: "x * (1 - unit_roundoff) ^ Suc k \<le> to_double z"
    using n(1) by simp
  have "to_double z \<le> z * (1 + unit_roundoff)"
    by (rule n(2))
  also have "\<dots> \<le> x * (1 + unit_roundoff) ^ k * (1 + unit_roundoff)"
    using hi unit_roundoff_bounds by (intro mult_right_mono) simp_all
  finally have 2: "to_double z \<le> x * (1 + unit_roundoff) ^ Suc k"
    by (simp add: mult_ac)
  show ?thesis
    using 1 2 by (simp only: roundings_def)
qed

lemma roundings_4:
  assumes "0 \<le> x" and "roundings 4 r x"
  shows "\<bar>r - x\<bar> \<le> x / 2 ^ 50"
proof -
  have a: "1 - 1 / 2 ^ 50 \<le> (1 - unit_roundoff) ^ 4" "(1 + unit_roundoff) ^ 4 \<le> 1 + 1 / 2 ^ 50"
    by (simp_all add: unit_roundoff_def power_divide)
  have "x * (1 - 1 / 2 ^ 50) \<le> x * (1 - unit_roundoff) ^ 4"
    using assms(1) a(1) by (rule mult_left_mono[rotated])
  moreover have "x * (1 + unit_roundoff) ^ 4 \<le> x * (1 + 1 / 2 ^ 50)"
    using assms(1) a(2) by (rule mult_left_mono[rotated])
  ultimately have "x * (1 - 1 / 2 ^ 50) \<le> r" "r \<le> x * (1 + 1 / 2 ^ 50)"
    using assms(2) by (simp_all add: roundings_def)
  moreover have "x * (1 - 1 / 2 ^ 50) = x - x / 2 ^ 50" "x * (1 + 1 / 2 ^ 50) = x + x / 2 ^ 50"
    by (simp_all add: algebra_simps)
  ultimately have "x - x / 2 ^ 50 \<le> r" "r \<le> x + x / 2 ^ 50"
    by (simp_all only:)
  then show ?thesis
    by linarith
qed

lemma int_zero_or_one: "0 \<le> (i::int) \<Longrightarrow> (of_int i :: rat) = 0 \<or> 1 / 1000000 \<le> (of_int i :: rat)"
proof -
  assume "0 \<le> i"
  then consider "i = 0" | "1 \<le> i"
    by linarith
  then show ?thesis
  proof cases
    case 1
    then show ?thesis by simp
  next
    case 2
    then have "(1::rat) \<le> of_int i"
      by simp
    then show ?thesis
      by simp
  qed
qed

lemma seconds_near:
  assumes "0 \<le> (a::int)" and "0 \<le> (b::int)"
  shows "roundings 3 (to_double (to_double (of_int a) + to_double (to_double (of_int b) / 1000000)))
           (of_int a + of_int b / 1000000)"
    and "of_int a + of_int b / 1000000 = (0::rat) \<or> 1 / 1000000 \<le> (of_int a + of_int b / 1000000 :: rat)"
proof -
  have a0: "(of_int a :: rat) = 0 \<or> 1 / 1000000 \<le> (of_int a :: rat)"
    and b0: "(of_int b :: rat) = 0 \<or> 1 / 1000000 \<le> (of_int b :: rat)"
    by (rule int_zero_or_one[OF assms(1)], rule int_zero_or_one[OF assms(2)])
  have an: "(0::rat) \<le> of_int a" and bn: "(0::rat) \<le> of_int b"
    using assms by simp_all
  have b1: "(of_int b :: rat) = 0 \<or> 1 \<le> (of_int b :: rat)"
  proof -
    consider "b = 0" | "1 \<le> b"
      using assms(2) by linarith
    then show ?thesis
      by cases simp_all
  qed
  then have q0: "(of_int b / 1000000 :: rat) = 0 \<or> 1 / 1000000 \<le> (of_int b / 1000000 :: rat)"
    by (auto simp: divide_right_mono)
  have 1: "roundings 1 (to_double (of_int a)) (of_int a)"
    using roundings_to_double[OF roundings_0 a0] by simp
  have 2: "roundings 1 (to_double (of_int b)) (of_int b)"
    using roundings_to_double[OF roundings_0 b0] by simp
  have "roundings 1 (to_double (of_int b) / 1000000) (of_int b / 1000000)"
    using 2 by (intro roundings_div) simp_all
  from roundings_to_double[OF this q0]
  have 3: "roundings 2 (to_double (to_double (of_int b) / 1000000)) (of_int b / 1000000)"
    by (simp add: numeral_2_eq_2)
  have 4: "roundings 2 (to_double (of_int a)) (of_int a)"
    using roundings_mono[OF an _ 1, of 2] by simp
  have 5: "roundings 2 (to_double (of_int a) + to_double (to_double (of_int b) / 1000000))
      (of_int a + of_int b / 1000000)"
    using 4 3 by (rule roundings_add)
  show s0: "of_int a + of_int b / 1000000 = (0::rat) \<or> 1 / 1000000 \<le> (of_int a + of_int b / 1000000 :: rat)"
    using a0 q0 an bn by auto
  from roundings_to_double[OF 5 s0]
  show "roundings 3 (to_double (to_double (of_int a) + to_double (to_double (of_int b) / 1000000)))
           (of_int a + of_int b / 1000000)"
    by (simp add: numeral_3_eq_3)
qed

lemma tot_near:
  assumes "0 \<le> (a::int)" and "0 \<le> (b::int)" and "0 \<le> (c::int)" and "0 \<le> (d::int)"
  shows "\<bar>to_double
            (to_double (to_double (of_int a) + to_double (to_double (of_int b) / 1000000)) +
             to_double (to_double (of_int c) + to_double (to_double (of_int d) / 1000000))) -
          (of_int a + of_int b / 1000000 + (of_int c + of_int d / 1000000))\<bar>
         \<le> (of_int a + of_int b / 1000000 + (of_int c + of_int d / 1000000)) / 2 ^ 50"
proof -
  let ?U = "of_int a + of_int b / 1000000 :: rat"
  let ?S = "of_int c + of_int d / 1000000 :: rat"
  note u = seconds_near[OF assms(1,2)]
  note s = seconds_near[OF assms(3,4)]
  have n: "0 \<le> ?U" "0 \<le> ?S"
    using assms by simp_all
  have z: "?U + ?S = 0 \<or> 1 / 1000000 \<le> ?U + ?S"
    using u(2) s(2) n by auto
  from roundings_to_double[OF roundings_add[OF u(1) s(1)] z]
  have "roundings 4
      (to_double
        (to_double (to_double (of_int a) + to_double (to_double (of_int b) / 1000000)) +
         to_double (to_double (of_int c) + to_double (to_double (of_int d) / 1000000))))
      (?U + ?S)"
    by (simp add: eval_nat_numeral)
  moreover have "0 \<le> ?U + ?S"
    using n by simp
  ultimately show ?thesis
    by (rule roundings_4[rotated])
qed

lemma to_double_of_int_exact:
  assumes "0 \<le> i" and "i < 2 ^ 53"
  shows "to_double (of_int i) = of_int i"
proof (cases "i = 0")
  case True
  then show ?thesis by simp
next
  case False
  with assms(1) have pos: "0 < i"
    by simp
  then have abs: "\<bar>of_int i :: rat\<bar> = of_int i" and sgn: "sgn (of_int i :: rat) = 1"
    by simp_all
  show ?thesis
  proof (cases "(of_int i :: rat) < 2 ^ 52")
    case True
    obtain y t where yt: "scale_up 1074 (of_int i) 1 = (y, t)"
      by (cases "scale_up 1074 (of_int i :: rat) 1") auto
    from scale_up_spec[OF this] obtain k where k: "y = of_int i * 2 ^ k" "t = 2 ^ k"
      by auto
    have "y = of_int (i * 2 ^ k)"
      using k(1) by simp
    then have "of_int (round_half_even y) = y"
      by (simp only: round_half_even_of_int)
    then show ?thesis
      using True yt k by (simp add: to_double_def abs sgn)
  next
    case False
    have "\<not> (2 ^ 53 \<le> (of_int i :: rat))"
      using assms(2) by (simp add: not_le of_int_less_numeral_power_cancel_iff)
    then have "scale_down 971 (of_int i :: rat) 1 = (of_int i, 1)"
      by (simp add: scale_down_step)
    then show ?thesis
      using False by (simp add: to_double_def abs sgn)
  qed
qed

lemma tot_sec_near:
  assumes "0 \<le> sint (ru_utime_sec usage)" and "0 \<le> sint (ru_utime_usec usage)"
    and "0 \<le> sint (ru_stime_sec usage)" and "0 \<le> sint (ru_stime_usec usage)"
  shows "\<bar>tot_sec usage - cpu_seconds usage\<bar> \<le> cpu_seconds usage / 2 ^ 50"
  using tot_near[OF assms]
  by (simp only: tot_sec_def user_sec_def sys_sec_def d_add_def d_div_def d_of_long_def
      cpu_seconds_def)

lemma d_of_u64_exact: "uint l < 2 ^ 53 \<Longrightarrow> d_of_u64 l = of_int (uint l)"
  unfolding d_of_u64_def by (rule to_double_of_int_exact) simp_all

lemma to_double_exact:
  "to_double 0 = 0" "to_double 1 = 1" "to_double 2 = 2" "to_double 599 = 599"
  "to_double 600 = 600" "to_double 500000 = 500000" "to_double 999999 = 999999"
  "to_double (1 / 2) = 1 / 2" "to_double (1199 / 2) = 1199 / 2"
  by (simp_all add: fp_eval)

lemma tot0: "tot_sec (w4_usage renv0) = 600"
  by (simp add: tot_sec_def user_sec_def sys_sec_def d_add_def d_div_def d_of_long_def
      renv0_def to_double_exact)

lemma reapProc_effects_no_teardown:
  assumes "w4_ret e = pid" and "pids c pid = Some p" and "use_cgroupv2 c"
    and "cgroup_mem_max c = 0" and "cgroup_pids_max c = 0" and "cgroup_cpu_ms_per_sec c = 0"
  shows "effects (trace (snd (snd (reapProc e c pid should_wait w)))) =
           effects (trace w) @
           (if WIFEXITED (w4_status e) \<or> WIFSIGNALED (w4_status e)
            then [CloseFd (pid_syscall_fd p), Erase pid] else [])"
  using assms
  by (auto simp: reapProc_def Let_def removeProc_trace finish_effects_none ev_def logw_def
      split: prod.splits)

lemma reapProc_effects_teardown:
  assumes "w4_ret e = pid" and "pids c pid = Some p" and "use_cgroupv2 c"
    and "cgroup_mem_max c \<noteq> 0 \<or> cgroup_pids_max c \<noteq> 0 \<or> cgroup_cpu_ms_per_sec c \<noteq> 0"
  shows "\<exists>rs. accounting_reads (getCgroupPath c pid) rs \<and>
           effects (trace (snd (snd (reapProc e c pid should_wait w)))) =
             effects (trace w) @ rs @ [Rmdir (getCgroupPath c pid)] @
             (if WIFEXITED (w4_status e) \<or> WIFSIGNALED (w4_status e)
              then [CloseFd (pid_syscall_fd p), Erase pid] else [])"
proof -
  let ?w2 = "logw LI ''CPU usage'' (logw LI ''Configured RLIMIT_CPU'' w)"
  obtain rs where rs: "accounting_reads (getCgroupPath c pid) rs"
    "effects (trace (finishFromParent c pid ?w2)) =
       effects (trace ?w2) @ rs @ [Rmdir (getCgroupPath c pid)]"
    using finish_effects[OF assms(4)] by blast
  have "effects (trace (snd (snd (reapProc e c pid should_wait w)))) =
      effects (trace w) @ rs @ [Rmdir (getCgroupPath c pid)] @
      (if WIFEXITED (w4_status e) \<or> WIFSIGNALED (w4_status e)
       then [CloseFd (pid_syscall_fd p), Erase pid] else [])"
    using assms(1-3) rs(2)
    by (auto simp: reapProc_def Let_def removeProc_trace ev_def logw_def split: prod.splits)
  with rs(1) show ?thesis
    by blast
qed

lemma reapProc_no_teardown_dirs:
  assumes "use_cgroupv2 c" and "cgroup_mem_max c = 0" and "cgroup_pids_max c = 0"
    and "cgroup_cpu_ms_per_sec c = 0"
  shows "dirs (snd (snd (reapProc e c pid should_wait w))) = dirs w"
  using assms
  by (auto simp: reapProc_def Let_def removeProc_def finishFromParent_def ev_def logw_def
      split: prod.splits option.splits)

lemma reapProc_ret_pids:
  assumes "w4_ret e = pid" "WIFEXITED (w4_status e)"
  shows "fst (reapProc e c pid should_wait w) = WEXITSTATUS (w4_status e) \<and>
         pids (fst (snd (reapProc e c pid should_wait w))) = (pids c)(pid := None)"
  using assms
  by (auto simp: reapProc_def Let_def removeProc_pids[THEN fun_cong] split: prod.splits)

lemmas init_eval = initNsFromParent_def initNsFromParentMem_def initNsFromParentPids_def
  initNsFromParentCpu_def RETURN_ON_FAILURE_def createCgroup_def addPidToProcList_def
  writeToCgroup_def writeBufToFile_def sys_mkdir_def getCgroupPath_def store_def
  subtree_control_path_def logw_def ev_def to_string_def dec_nat.simps Let_def EEXIST_def

text \<open>
  Claim C10. When \<open>wait4\<close> does not return the pid (the child has not exited under
  \<open>WNOHANG\<close>, or the call failed), \<open>reapProc\<close> returns 0 and changes nothing: the
  configuration and with it the registry are the same, the trace gains diagnostic lines
  only (no \<open>close\<close> of the accounting descriptor, no read of an accounting file, no
  \<open>rmdir\<close>, no removal of a record), and directories and files are as before.
\<close>

theorem reapProc_not_ready:
  assumes "w4_ret e \<noteq> pid"
  shows "fst (reapProc e c pid should_wait w) = 0 \<and>
         fst (snd (reapProc e c pid should_wait w)) = c \<and>
         (\<exists>ls. only_logs ls \<and> trace (snd (snd (reapProc e c pid should_wait w))) = trace w @ ls) \<and>
         effects (trace (snd (snd (reapProc e c pid should_wait w)))) = effects (trace w) \<and>
         dirs (snd (snd (reapProc e c pid should_wait w))) = dirs w \<and>
         files (snd (snd (reapProc e c pid should_wait w))) = files w"
  using assms
  by (auto simp: reapProc_def Let_def logw_def ev_def split: option.splits prod.splits)

theorem reapProc_not_ready_witness:
  "w4_ret (renv0\<lparr>w4_ret := 0\<rparr>) \<noteq> 42 \<and>
   fst (reapProc (renv0\<lparr>w4_ret := 0\<rparr>) (conf0\<lparr>pids := [42 \<mapsto> rec0]\<rparr>) 42 False world0) = 0 \<and>
   pids (fst (snd (reapProc (renv0\<lparr>w4_ret := 0\<rparr>) (conf0\<lparr>pids := [42 \<mapsto> rec0]\<rparr>) 42 False world0))) 42
     = Some rec0 \<and>
   effects (trace (snd (snd (reapProc (renv0\<lparr>w4_ret := 0\<rparr>) (conf0\<lparr>pids := [42 \<mapsto> rec0]\<rparr>) 42 False
     world0)))) = []"
proof -
  have a: "w4_ret (renv0\<lparr>w4_ret := 0\<rparr>) \<noteq> 42"
    by simp
  have b: "effects (trace world0) = []"
    by (simp add: world0_def)
  show ?thesis
    using reapProc_not_ready[OF a, of "conf0\<lparr>pids := [42 \<mapsto> rec0]\<rparr>" False world0] a b
    by simp
qed

text \<open>
  Claim C6. When \<open>wait4\<close> returns the pid, \<open>reapProc\<close> removes the record of the pid from
  the registry and returns the exit code if the status satisfies \<open>WIFEXITED\<close>, and 128
  plus the signal number if it satisfies \<open>WIFSIGNALED\<close>.
\<close>

theorem reapProc_exit_code:
  assumes "w4_ret e = pid"
  shows "(WIFEXITED (w4_status e) \<longrightarrow>
            fst (reapProc e c pid should_wait w) = WEXITSTATUS (w4_status e) \<and>
            pids (fst (snd (reapProc e c pid should_wait w))) = (pids c)(pid := None)) \<and>
         (WIFSIGNALED (w4_status e) \<longrightarrow>
            fst (reapProc e c pid should_wait w) = 128 + WTERMSIG (w4_status e) \<and>
            pids (fst (snd (reapProc e c pid should_wait w))) = (pids c)(pid := None))"
  using assms signaled_not_exited[of "w4_status e"]
  by (auto simp: reapProc_def Let_def removeProc_pids[THEN fun_cong] split: prod.splits)

theorem reapProc_exit_code_witness:
  "w4_ret renv0 = 42 \<and> WIFEXITED (w4_status renv0) \<and>
   fst (reapProc renv0 (conf0\<lparr>pids := [42 \<mapsto> rec0]\<rparr>) 42 False world0) = 3 \<and>
   pids (fst (snd (reapProc renv0 (conf0\<lparr>pids := [42 \<mapsto> rec0]\<rparr>) 42 False world0))) 42 = None \<and>
   w4_ret (renv0\<lparr>w4_status := 9\<rparr>) = 42 \<and> WIFSIGNALED (w4_status (renv0\<lparr>w4_status := 9\<rparr>)) \<and>
   fst (reapProc (renv0\<lparr>w4_status := 9\<rparr>) (conf0\<lparr>pids := [42 \<mapsto> rec0]\<rparr>) 42 False world0) = 137 \<and>
   pids (fst (snd (reapProc (renv0\<lparr>w4_status := 9\<rparr>) (conf0\<lparr>pids := [42 \<mapsto> rec0]\<rparr>) 42 False
     world0))) 42 = None"
proof -
  have a: "w4_ret renv0 = 42" "w4_status renv0 = 0x0300"
    "w4_ret (renv0\<lparr>w4_status := 9\<rparr>) = 42"
    by (simp_all add: renv0_def)
  show ?thesis
    using reapProc_exit_code[OF a(1), of "conf0\<lparr>pids := [42 \<mapsto> rec0]\<rparr>" False world0]
      reapProc_exit_code[OF a(3), of "conf0\<lparr>pids := [42 \<mapsto> rec0]\<rparr>" False world0]
      a st_exit st_kill
    by simp
qed

lemma reapProc_signal_reports:
  assumes "w4_ret e = pid" and "WIFSIGNALED (w4_status e)"
  shows "reports (trace (snd (snd (reapProc e c pid should_wait w)))) =
           reports (trace w) @
           [(pid, if WTERMSIG (w4_status e) = SIGXCPU then CpuSoftLimit
                  else if WTERMSIG (w4_status e) = SIGKILL then
                    (if (case pids c pid of Some p \<Rightarrow> cpu_rl_max p | None \<Rightarrow> RLIM64_INFINITY)
                          \<noteq> RLIM64_INFINITY \<and>
                        d_of_u64 (case pids c pid of Some p \<Rightarrow> cpu_rl_max p | None \<Rightarrow> RLIM64_INFINITY)
                          \<le> tot_sec (w4_usage e)
                     then CpuHardLimit else KilledBySigkill)
                  else TerminatedBySignal (WTERMSIG (w4_status e)))]"
  using assms signaled_not_exited[of "w4_status e"]
  by (auto simp: reapProc_def Let_def removeProc_reports finish_reports ev_def logw_def
      split: prod.splits option.splits)

lemma tick_parts:
  "to_double (1 / 1000000) = 4722366482869645 / 4722366482869645213696"
  "to_double (4722366482869645 / 4722366482869645213696) = 4722366482869645 / 4722366482869645213696"
  "to_double (999999 / 1000000) = 9007190247541737 / 9007199254740992"
  "to_double (18014389502282729 / 9007199254740992) = 2251798687785341 / 1125899906842624"
  by (simp_all add: fp_eval)

lemma tick_sum:
  "to_double (4722366482869645 / 4722366482869645213696 + 2251798687785341 / 1125899906842624) =
     9007199254740991 / 4503599627370496"
  by (simp add: fp_eval)

lemma tot_tick: "tot_sec (w4_usage renv_tick) = 9007199254740991 / 4503599627370496"
proof -
  have u: "user_sec (w4_usage renv_tick) = 4722366482869645 / 4722366482869645213696"
    by (simp add: user_sec_def d_add_def d_div_def d_of_long_def renv_tick_def to_double_exact
        tick_parts)
  have s: "sys_sec (w4_usage renv_tick) = 2251798687785341 / 1125899906842624"
    by (simp add: sys_sec_def d_add_def d_div_def d_of_long_def renv_tick_def to_double_exact
        tick_parts)
  show ?thesis
    unfolding tot_sec_def d_add_def u s by (rule tick_sum)
qed

text \<open>
  Claim C5, as amended. For a tracked child that \<open>wait4\<close> reports as ended by a signal:
  if the signal is \<open>SIGKILL\<close>, the reaper reports "CPU hard limit exceeded" exactly when
  the hard limit stored in the record is not \<open>RLIM64_INFINITY\<close> and \<open>tot_sec\<close> is at least
  that limit converted to \<open>double\<close>, and plain \<open>SIGKILL\<close> otherwise; if the signal is
  \<open>SIGXCPU\<close> it reports "CPU soft limit exceeded". \<open>tot_sec\<close> is the user plus system CPU
  time in seconds as the code computes it in double precision, with every conversion,
  quotient and sum rounded: for times that are not negative it is the exact number of
  seconds \<open>cpu_seconds\<close> up to a relative error of \<open>2 ^ -50\<close>, and the conversion of a limit
  below \<open>2 ^ 53\<close> is exact. So for such a limit the report is "CPU hard limit exceeded"
  when the exact time less that error is at least the limit, and plain \<open>SIGKILL\<close> when the
  exact time plus that error is below the limit; in between the rounding decides.
\<close>

theorem sigkill_classification:
  assumes "w4_ret e = pid" and "pids c pid = Some p" and "WIFSIGNALED (w4_status e)"
  shows "(WTERMSIG (w4_status e) = SIGKILL \<longrightarrow>
            reports (trace (snd (snd (reapProc e c pid should_wait w)))) =
              reports (trace w) @
              [(pid, if cpu_rl_max p \<noteq> RLIM64_INFINITY \<and>
                        d_of_u64 (cpu_rl_max p) \<le> tot_sec (w4_usage e)
                     then CpuHardLimit else KilledBySigkill)]) \<and>
         (WTERMSIG (w4_status e) = SIGXCPU \<longrightarrow>
            reports (trace (snd (snd (reapProc e c pid should_wait w)))) =
              reports (trace w) @ [(pid, CpuSoftLimit)]) \<and>
         (0 \<le> sint (ru_utime_sec (w4_usage e)) \<and> 0 \<le> sint (ru_utime_usec (w4_usage e)) \<and>
          0 \<le> sint (ru_stime_sec (w4_usage e)) \<and> 0 \<le> sint (ru_stime_usec (w4_usage e)) \<longrightarrow>
            \<bar>tot_sec (w4_usage e) - cpu_seconds (w4_usage e)\<bar> \<le> cpu_seconds (w4_usage e) / 2 ^ 50 \<and>
            (WTERMSIG (w4_status e) = SIGKILL \<and> uint (cpu_rl_max p) < 2 ^ 53 \<and>
             of_int (uint (cpu_rl_max p)) \<le>
               cpu_seconds (w4_usage e) - cpu_seconds (w4_usage e) / 2 ^ 50 \<longrightarrow>
               reports (trace (snd (snd (reapProc e c pid should_wait w)))) =
                 reports (trace w) @ [(pid, CpuHardLimit)]) \<and>
            (WTERMSIG (w4_status e) = SIGKILL \<and> uint (cpu_rl_max p) < 2 ^ 53 \<and>
             cpu_seconds (w4_usage e) + cpu_seconds (w4_usage e) / 2 ^ 50 <
               of_int (uint (cpu_rl_max p)) \<longrightarrow>
               reports (trace (snd (snd (reapProc e c pid should_wait w)))) =
                 reports (trace w) @ [(pid, KilledBySigkill)])) \<and>
         (uint (cpu_rl_max p) < 2 ^ 53 \<longrightarrow> d_of_u64 (cpu_rl_max p) = of_int (uint (cpu_rl_max p)))"
proof -
  let ?u = "w4_usage e"
  let ?l = "cpu_rl_max p"
  let ?r = "reports (trace (snd (snd (reapProc e c pid should_wait w))))"
  note r = reapProc_signal_reports[OF assms(1,3), of c should_wait w]
  have kill: "WTERMSIG (w4_status e) = SIGKILL \<Longrightarrow>
      ?r = reports (trace w) @
        [(pid, if ?l \<noteq> RLIM64_INFINITY \<and> d_of_u64 ?l \<le> tot_sec ?u
               then CpuHardLimit else KilledBySigkill)]"
    using r assms(2) by (simp add: SIGKILL_def SIGXCPU_def)
  have xcpu: "WTERMSIG (w4_status e) = SIGXCPU \<Longrightarrow> ?r = reports (trace w) @ [(pid, CpuSoftLimit)]"
    using r by simp
  have "uint RLIM64_INFINITY = 18446744073709551615"
    by (simp add: RLIM64_INFINITY_def unsigned_minus_1_eq_mask mask_eq_exp_minus_1)
  then have finite: "uint ?l < 2 ^ 53 \<Longrightarrow> ?l \<noteq> RLIM64_INFINITY"
    by auto
  have near: "\<bar>tot_sec ?u - cpu_seconds ?u\<bar> \<le> cpu_seconds ?u / 2 ^ 50"
    if "0 \<le> sint (ru_utime_sec ?u) \<and> 0 \<le> sint (ru_utime_usec ?u) \<and>
        0 \<le> sint (ru_stime_sec ?u) \<and> 0 \<le> sint (ru_stime_usec ?u)"
    using that by (intro tot_sec_near) simp_all
  have hard: "?r = reports (trace w) @ [(pid, CpuHardLimit)]"
    if "\<bar>tot_sec ?u - cpu_seconds ?u\<bar> \<le> cpu_seconds ?u / 2 ^ 50"
      and "WTERMSIG (w4_status e) = SIGKILL \<and> uint ?l < 2 ^ 53 \<and>
        of_int (uint ?l) \<le> cpu_seconds ?u - cpu_seconds ?u / 2 ^ 50"
  proof -
    have "d_of_u64 ?l \<le> tot_sec ?u"
      using that d_of_u64_exact[of ?l] by linarith
    then show ?thesis
      using kill that(2) finite by simp
  qed
  have plain: "?r = reports (trace w) @ [(pid, KilledBySigkill)]"
    if "\<bar>tot_sec ?u - cpu_seconds ?u\<bar> \<le> cpu_seconds ?u / 2 ^ 50"
      and "WTERMSIG (w4_status e) = SIGKILL \<and> uint ?l < 2 ^ 53 \<and>
        cpu_seconds ?u + cpu_seconds ?u / 2 ^ 50 < of_int (uint ?l)"
  proof -
    have "\<not> d_of_u64 ?l \<le> tot_sec ?u"
      using that d_of_u64_exact[of ?l] by linarith
    then show ?thesis
      using kill that(2) by simp
  qed
  show ?thesis
    using kill xcpu near hard plain d_of_u64_exact[of ?l] by blast
qed

theorem sigkill_classification_witness:
  "w4_ret (renv0\<lparr>w4_status := 9\<rparr>) = 42 \<and>
   WIFSIGNALED (w4_status (renv0\<lparr>w4_status := 9\<rparr>)) \<and>
   WTERMSIG (w4_status (renv0\<lparr>w4_status := 9\<rparr>)) = SIGKILL \<and>
   cpu_seconds (w4_usage (renv0\<lparr>w4_status := 9\<rparr>)) = 600 \<and>
   tot_sec (w4_usage (renv0\<lparr>w4_status := 9\<rparr>)) = 600 \<and>
   d_of_u64 (cpu_rl_max rec0) = 600 \<and>
   reports (trace (snd (snd (reapProc (renv0\<lparr>w4_status := 9\<rparr>) (conf0\<lparr>pids := [42 \<mapsto> rec0]\<rparr>) 42 False world0))))
     = [(42, CpuHardLimit)] \<and>
   reports (trace (snd (snd (reapProc (renv0\<lparr>w4_status := 9\<rparr>)
     (conf0\<lparr>pids := [42 \<mapsto> rec0\<lparr>cpu_rl_max := 599\<rparr>]\<rparr>) 42 False world0))))
     = [(42, CpuHardLimit)] \<and>
   reports (trace (snd (snd (reapProc (renv0\<lparr>w4_status := 9\<rparr>)
     (conf0\<lparr>pids := [42 \<mapsto> rec0\<lparr>cpu_rl_max := 601\<rparr>]\<rparr>) 42 False world0))))
     = [(42, KilledBySigkill)]"
proof -
  let ?e = "renv0\<lparr>w4_status := 9\<rparr>"
  have a: "w4_ret ?e = 42" "w4_status ?e = 9"
    "w4_usage ?e = \<lparr>ru_utime_sec = 599, ru_utime_usec = 500000, ru_stime_sec = 0, ru_stime_usec = 500000\<rparr>"
    by (simp_all add: renv0_def)
  have k: "WIFSIGNALED (w4_status ?e)" "WTERMSIG (w4_status ?e) = SIGKILL"
    using st_kill by (simp_all add: a(2) SIGKILL_def)
  have n: "0 \<le> sint (ru_utime_sec (w4_usage ?e)) \<and> 0 \<le> sint (ru_utime_usec (w4_usage ?e)) \<and>
      0 \<le> sint (ru_stime_sec (w4_usage ?e)) \<and> 0 \<le> sint (ru_stime_usec (w4_usage ?e))"
    by (simp add: a(3))
  have s: "cpu_seconds (w4_usage ?e) = 600" "cpu_seconds (w4_usage renv0) = 600"
    by (simp_all add: cpu_seconds_def renv0_def)
  have t: "tot_sec (w4_usage ?e) = 600"
    using tot0 by (simp add: renv0_def)
  have d: "reports (trace world0) = []"
    by (simp add: world0_def)
  have l: "cpu_rl_max rec0 = 600" "(600 :: 64 word) \<noteq> RLIM64_INFINITY" "uint (600 :: 64 word) < 2 ^ 53"
    by (simp_all add: rec0_def RLIM64_INFINITY_def)
  note A = sigkill_classification[OF a(1) _ k(1), of "conf0\<lparr>pids := [42 \<mapsto> rec0]\<rparr>" rec0 False world0]
  have 1: "d_of_u64 (cpu_rl_max rec0) = 600"
    using A l by simp
  have 2: "reports (trace (snd (snd (reapProc ?e (conf0\<lparr>pids := [42 \<mapsto> rec0]\<rparr>) 42 False world0))))
      = [(42, CpuHardLimit)]"
    using A k(2) l t d 1 by simp
  have l9: "uint (cpu_rl_max (rec0\<lparr>cpu_rl_max := 599\<rparr>)) < 2 ^ 53"
    "of_int (uint (cpu_rl_max (rec0\<lparr>cpu_rl_max := 599\<rparr>))) \<le>
       cpu_seconds (w4_usage ?e) - cpu_seconds (w4_usage ?e) / 2 ^ 50"
    by (simp_all add: s)
  have 3: "reports (trace (snd (snd (reapProc ?e
      (conf0\<lparr>pids := [42 \<mapsto> rec0\<lparr>cpu_rl_max := 599\<rparr>]\<rparr>) 42 False world0)))) = [(42, CpuHardLimit)]"
    using sigkill_classification[OF a(1) _ k(1),
        of "conf0\<lparr>pids := [42 \<mapsto> rec0\<lparr>cpu_rl_max := 599\<rparr>]\<rparr>" "rec0\<lparr>cpu_rl_max := 599\<rparr>" False world0,
        unfolded d append_Nil]
      n k(2) l9 by fastforce
  have l1: "uint (cpu_rl_max (rec0\<lparr>cpu_rl_max := 601\<rparr>)) < 2 ^ 53"
    "cpu_seconds (w4_usage ?e) + cpu_seconds (w4_usage ?e) / 2 ^ 50 <
       of_int (uint (cpu_rl_max (rec0\<lparr>cpu_rl_max := 601\<rparr>)))"
    by (simp_all add: s)
  have 4: "reports (trace (snd (snd (reapProc ?e
      (conf0\<lparr>pids := [42 \<mapsto> rec0\<lparr>cpu_rl_max := 601\<rparr>]\<rparr>) 42 False world0)))) = [(42, KilledBySigkill)]"
    using sigkill_classification[OF a(1) _ k(1),
        of "conf0\<lparr>pids := [42 \<mapsto> rec0\<lparr>cpu_rl_max := 601\<rparr>]\<rparr>" "rec0\<lparr>cpu_rl_max := 601\<rparr>" False world0,
        unfolded d append_Nil]
      n k(2) l1 by fastforce
  show ?thesis
    using a(1) k s(1) t 1 2 3 4 by simp
qed

text \<open>
  Claim C5 as stated fails: the comparison is not one of the exact number of seconds.
  After 0.000001 seconds in user mode and 1.999999 seconds in system mode the CPU time is
  2 seconds, no less than the finite hard limit of 2 seconds; but \<open>sys_sec\<close> is rounded
  and \<open>tot_sec\<close> is \<open>2 - 2 ^ -52\<close> (the double 1.9999999999999998), below the limit, and
  the reaper reports plain \<open>SIGKILL\<close>.
\<close>

theorem sigkill_at_limit_rounded_down:
  "cpu_rl_max rec_tick \<noteq> RLIM64_INFINITY \<and>
   cpu_seconds (w4_usage renv_tick) = 2 \<and>
   of_int (uint (cpu_rl_max rec_tick)) \<le> cpu_seconds (w4_usage renv_tick) \<and>
   d_of_u64 (cpu_rl_max rec_tick) = 2 \<and>
   tot_sec (w4_usage renv_tick) = 9007199254740991 / 4503599627370496 \<and>
   WIFSIGNALED (w4_status renv_tick) \<and> WTERMSIG (w4_status renv_tick) = SIGKILL \<and>
   reports (trace (snd (snd (reapProc renv_tick (conf0\<lparr>pids := [42 \<mapsto> rec_tick]\<rparr>) 42 False world0))))
     = [(42, KilledBySigkill)]"
proof -
  have a: "w4_ret renv_tick = 42" "w4_status renv_tick = 9"
    by (simp_all add: renv_tick_def)
  have c: "cpu_rl_max rec_tick = 2" "(2 :: 64 word) \<noteq> RLIM64_INFINITY"
    by (simp_all add: rec_tick_def RLIM64_INFINITY_def)
  have s: "cpu_seconds (w4_usage renv_tick) = 2"
    by (simp add: cpu_seconds_def renv_tick_def)
  have l: "d_of_u64 2 = 2"
    by (simp add: d_of_u64_def to_double_exact)
  have d: "reports (trace world0) = []"
    by (simp add: world0_def)
  have r: "reports (trace (snd (snd (reapProc renv_tick (conf0\<lparr>pids := [42 \<mapsto> rec_tick]\<rparr>) 42 False world0))))
      = [(42, KilledBySigkill)]"
    using reapProc_signal_reports[of renv_tick 42 "conf0\<lparr>pids := [42 \<mapsto> rec_tick]\<rparr>" False world0]
      a c d l st_kill tot_tick
    by (simp add: SIGKILL_def SIGXCPU_def)
  show ?thesis
    using a c s l r st_kill tot_tick by (simp add: SIGKILL_def)
qed

text \<open>
  Claim C3 at a failing input: cgroup v2 in use, every limit unset but
  \<open>cgroup_mem_swap_max = 0\<close>, child 42. The per-child initialisation succeeds and creates
  \<open>/sys/fs/cgroup/NSJAIL.42\<close> (\<open>initNsFromParentMem\<close> goes on because the swap limit is not
  negative). When the child has exited with code 3, \<open>reapProc\<close> returns 3 and removes the
  record, but \<open>finishFromParent\<close> does not call \<open>removeCgroup\<close> (its test looks at
  \<open>cgroup_mem_max\<close>, \<open>cgroup_pids_max\<close> and \<open>cgroup_cpu_ms_per_sec\<close> only): no accounting
  file is read, there is no \<open>rmdir\<close>, and the directory is still there.
\<close>

theorem cgroup_leak_swap_only:
  "let c = conf0\<lparr>cgroup_mem_swap_max := 0, pids := [42 \<mapsto> rec0]\<rparr>;
       d = ''/sys/fs/cgroup/NSJAIL.42'';
       spawn = initNsFromParent c 42 world0;
       reap = reapProc renv0 c 42 False (snd spawn)
   in fst spawn \<and>
      effects (trace (snd spawn)) =
        [Mkdir d, WriteFile (d @ ''/cgroup.procs'') ''42'', WriteFile (d @ ''/memory.swap.max'') ''0''] \<and>
      dirs (snd spawn) = {d} \<and>
      fst reap = 3 \<and>
      pids (fst (snd reap)) 42 = None \<and>
      effects (trace (snd (snd reap))) = effects (trace (snd spawn)) @ [CloseFd 7, Erase 42] \<and>
      dirs (snd (snd reap)) = {d}"
proof -
  let ?c = "conf0\<lparr>cgroup_mem_swap_max := 0, pids := [42 \<mapsto> rec0]\<rparr>"
  let ?w = "snd (initNsFromParent ?c 42 world0)"
  have 1: "fst (initNsFromParent ?c 42 world0)"
    by (simp add: init_eval conf0_def world0_def)
  have 2: "effects (trace ?w) =
      [Mkdir ''/sys/fs/cgroup/NSJAIL.42'', WriteFile ''/sys/fs/cgroup/NSJAIL.42/cgroup.procs'' ''42'',
       WriteFile ''/sys/fs/cgroup/NSJAIL.42/memory.swap.max'' ''0'']"
    by (simp add: init_eval conf0_def world0_def effects_def)
  have 3: "dirs ?w = {''/sys/fs/cgroup/NSJAIL.42''}"
    by (simp add: init_eval conf0_def world0_def)
  have a: "w4_ret renv0 = 42" "w4_status renv0 = 0x0300"
    by (simp_all add: renv0_def)
  have b: "pids ?c 42 = Some rec0" "pid_syscall_fd rec0 = 7"
    by (simp_all add: rec0_def)
  have c: "use_cgroupv2 ?c" "cgroup_mem_max ?c = 0" "cgroup_pids_max ?c = 0"
    "cgroup_cpu_ms_per_sec ?c = 0"
    by (simp_all add: conf0_def)
  have 4: "effects (trace (snd (snd (reapProc renv0 ?c 42 False ?w)))) =
      effects (trace ?w) @ [CloseFd 7, Erase 42]"
    using reapProc_effects_no_teardown[OF a(1) b(1) c, of False ?w] a(2) b(2) st_exit by simp
  have 5: "dirs (snd (snd (reapProc renv0 ?c 42 False ?w))) = dirs ?w"
    by (rule reapProc_no_teardown_dirs[OF c])
  have 6: "fst (reapProc renv0 ?c 42 False ?w) = 3 \<and>
      pids (fst (snd (reapProc renv0 ?c 42 False ?w))) 42 = None"
    using reapProc_ret_pids[OF a(1), of ?c False ?w] a(2) st_exit by simp
  show ?thesis
    unfolding Let_def using 1 2 3 4 5 6 by simp
qed

section \<open>Properties of the spawn\<close>

lemma same_fs_refl [simp]: "same_fs w w"
  by (simp add: same_fs_def)

lemma same_fs_sym: "same_fs w w' \<Longrightarrow> same_fs w' w"
  by (simp add: same_fs_def)

lemma same_fs_trans: "same_fs a b \<Longrightarrow> same_fs b c \<Longrightarrow> same_fs a c"
  by (simp add: same_fs_def)

lemma same_fs_logw [simp]: "same_fs w (logw l m w')  = same_fs w w'"
  "same_fs (logw l m w) w' = same_fs w w'"
  "same_fs w (ev x w')  = same_fs w w'"
  "same_fs (ev x w) w' = same_fs w w'"
  by (auto simp: same_fs_def logw_def ev_def)

lemma sim_rof: "sim f \<Longrightarrow> sim k \<Longrightarrow> sim (\<lambda>w. RETURN_ON_FAILURE (f w) k)"
  by (auto simp: sim_def RETURN_ON_FAILURE_def)

lemma sim_if: "sim f \<Longrightarrow> sim g \<Longrightarrow> sim (\<lambda>w. if b then f w else g w)"
  by (simp add: sim_def)

lemma sim_True: "sim (\<lambda>w. (True, w))"
  by (simp add: sim_def)

lemma sim_write: "sim (writeBufToFile p d l)"
  by (auto simp: sim_def same_fs_def writeBufToFile_def Let_def ev_def logw_def store_def
      subtree_control_path_def split: list.splits)

lemma sim_createCgroup: "sim (createCgroup p pid)"
  by (auto simp: sim_def same_fs_def createCgroup_def sys_mkdir_def Let_def ev_def logw_def)

lemma sim_addPid: "sim (addPidToProcList p pid)"
  unfolding sim_def
proof (intro allI impI)
  fix w w'
  assume "same_fs w w'"
  then have "same_fs (logw LD ''Adding pid to cgroup.procs'' w) (logw LD ''Adding pid to cgroup.procs'' w')"
    by simp
  from sim_write[unfolded sim_def, rule_format, OF this, of "p @ ''/cgroup.procs''" "to_string pid" True]
  show "fst (addPidToProcList p pid w') = fst (addPidToProcList p pid w) \<and>
        same_fs (snd (addPidToProcList p pid w)) (snd (addPidToProcList p pid w'))"
    by (auto simp: addPidToProcList_def Let_def split: prod.splits)
qed

lemma sim_writeToCgroup: "sim (writeToCgroup p r v)"
  unfolding sim_def
proof (intro allI impI)
  fix w w'
  assume "same_fs w w'"
  then have "same_fs (logw LI ''Setting resource'' w) (logw LI ''Setting resource'' w')"
    by simp
  from sim_write[unfolded sim_def, rule_format, OF this, of "p @ ''/'' @ r" v True]
  show "fst (writeToCgroup p r v w') = fst (writeToCgroup p r v w) \<and>
        same_fs (snd (writeToCgroup p r v w)) (snd (writeToCgroup p r v w'))"
    by (auto simp: writeToCgroup_def Let_def split: prod.splits)
qed

lemma sim_initMem: "sim (initNsFromParentMem c pid)"
  unfolding initNsFromParentMem_def Let_def
  by (auto intro!: sim_rof sim_createCgroup sim_addPid sim_writeToCgroup sim_True sim_if)

lemma sim_initPids: "sim (initNsFromParentPids c pid)"
  unfolding initNsFromParentPids_def Let_def
  by (auto intro!: sim_rof sim_createCgroup sim_addPid sim_writeToCgroup sim_True sim_if)

lemma sim_initCpu: "sim (initNsFromParentCpu c pid)"
  unfolding initNsFromParentCpu_def Let_def
  by (auto intro!: sim_rof sim_createCgroup sim_addPid sim_writeToCgroup sim_True sim_if)

lemma sim_init: "sim (initNsFromParent c pid)"
  unfolding initNsFromParent_def
  by (intro sim_rof sim_initMem sim_initPids sim_initCpu)

lemma init_pids_irrelevant: "initNsFromParent (c\<lparr>pids := x\<rparr>) pid w = initNsFromParent c pid w"
  by (simp add: initNsFromParent_def initNsFromParentMem_def initNsFromParentPids_def
      initNsFromParentCpu_def getCgroupPath_def Let_def cong: if_cong)

lemma cgroup_init_ok_same_fs:
  "same_fs w w' \<Longrightarrow> cgroup_init_ok e (c\<lparr>pids := x\<rparr>) pid w' = cgroup_init_ok e c pid w"
  using sim_init[of c pid] by (simp add: cgroup_init_ok_def sim_def init_pids_irrelevant)

lemma initParent_outcome:
  "fst (initParent e c pid fd w) =
     (if \<not> net_init_ok e then Returns False
      else if \<not> cgroup_init_ok e c pid w then Exits 0xff
      else if \<not> user_init_ok e then Returns False
      else if \<not> writeToFd_ok e then Returns False
      else Returns True)"
  by (auto simp: initParent_def cgroup_init_ok_def Let_def split: prod.splits bool.splits)

lemma cloneProc_world:
  "fst (cloneProc e f s w') = fst (cloneProc e f s w) \<and> same_fs w (snd (cloneProc e f s w))"
  by (auto simp: cloneProc_def Let_def same_fs_def logw_def ev_def split: prod.splits)


lemma addProc_new:
  assumes "pids c pid = None"
  shows "\<exists>p w'. addProc e c pid w = (Returns (), c\<lparr>pids := (pids c)(pid \<mapsto> p)\<rparr>, w') \<and> same_fs w w' \<and>
           cpu_rl_max p = (if disable_rl c then RLIM64_INFINITY else rl_cpu c)"
  using assms by (auto simp: addProc_def Let_def same_fs_def logw_def ev_def)

lemma runChild_cloned:
  assumes "limitConns_ok e" and "mode c \<noteq> MODE_STANDALONE_EXECVE" and "socketpair_ok e"
    and "fst (cloneProc e (clone_flags c) SIGCHLD w) = pid" and "pid \<noteq> 0" and "pid \<noteq> - 1"
    and "pids c pid = None"
  shows "fst (runChild e c w) =
     (if \<not> net_init_ok e then Returns (- 1)
      else if \<not> cgroup_init_ok e c pid w then Exits 0xff
      else if \<not> user_init_ok e then Returns (- 1)
      else if \<not> writeToFd_ok e then Returns (- 1)
      else if rcv_char e = Some kSubprocErrorChar then Returns (- 1)
      else Returns pid)"
proof -
  let ?w1 = "logw LD ''Creating new process with clone flags'' w"
  obtain w2 where cp: "cloneProc e (clone_flags c) SIGCHLD ?w1 = (pid, w2)"
    using cloneProc_world[of e "clone_flags c" SIGCHLD ?w1 w] assms(4)
    by (cases "cloneProc e (clone_flags c) SIGCHLD ?w1") auto
  have s2: "same_fs w w2"
    using cloneProc_world[of e "clone_flags c" SIGCHLD ?w1 ?w1] cp by simp
  let ?w3 = "ev (CloseFd (child_fd e)) w2"
  obtain p w4 where ap: "addProc e c pid ?w3 = (Returns (), c\<lparr>pids := (pids c)(pid \<mapsto> p)\<rparr>, w4)"
    and s4: "same_fs ?w3 w4"
    using addProc_new[OF assms(7), of e ?w3] by blast
  have s: "same_fs w w4"
    using s2 s4 same_fs_trans[of w ?w3 w4] by simp
  have ci: "cgroup_init_ok e (c\<lparr>pids := (pids c)(pid \<mapsto> p)\<rparr>) pid w4 = cgroup_init_ok e c pid w"
    by (rule cgroup_init_ok_same_fs[OF s])
  obtain o5 w5 where ip: "initParent e (c\<lparr>pids := (pids c)(pid \<mapsto> p)\<rparr>) pid (parent_fd e) w4 = (o5, w5)"
    by (cases "initParent e (c\<lparr>pids := (pids c)(pid \<mapsto> p)\<rparr>) pid (parent_fd e) w4") auto
  have o5: "o5 =
     (if \<not> net_init_ok e then Returns False
      else if \<not> cgroup_init_ok e c pid w then Exits 0xff
      else if \<not> user_init_ok e then Returns False
      else if \<not> writeToFd_ok e then Returns False
      else Returns True)"
    using initParent_outcome[of e "c\<lparr>pids := (pids c)(pid \<mapsto> p)\<rparr>" pid "parent_fd e" w4] ip ci
    by simp
  have "fst (runChild e c w) =
     (case o5 of Exits x \<Rightarrow> Exits x | Execs \<Rightarrow> Execs | Returns False \<Rightarrow> Returns (- 1)
      | Returns True \<Rightarrow> if rcv_char e = Some kSubprocErrorChar then Returns (- 1) else Returns pid)"
    using assms(1,2,3,5,6) cp ap ip
    by (simp add: runChild_def Let_def split: outcome.splits bool.splits)
  then show ?thesis
    by (simp add: o5)
qed

lemmas flag_defs = CLONE_VM_def CLONE_NEWTIME_def CLONE_NEWNS_def CLONE_NEWCGROUP_def
  CLONE_NEWUTS_def CLONE_NEWIPC_def CLONE_NEWUSER_def CLONE_NEWPID_def CLONE_NEWNET_def
  CLONE_CLEAR_SIGHAND_def CSIGNAL_def SIGCHLD_def

lemma clone_flags_conf0 [simp]:
  "clone_flags (conf0\<lparr>cgroup_pids_max := x\<rparr>) = 0x7E020000" "clone_flags conf0 = 0x7E020000"
  by (simp_all add: clone_flags_def conf0_def flag_defs)

lemma cloneProc_env0:
  "net_init_ok_update f (user_init_ok_update g env0) = e \<Longrightarrow> fst (cloneProc e 0x7E020000 SIGCHLD w) = 42"
  by (auto simp: cloneProc_def flag_defs env0_def Let_def)

text \<open>
  Claim C1, as amended. In cloned mode, once the child is cloned (\<open>cloneProc\<close> returned a
  pid greater than 0 that is not in the registry yet): if the net initialisation of
  \<open>initParent\<close> fails, or if it and the cgroup initialisation succeed and the user
  initialisation fails, \<open>runChild\<close> returns -1 to its caller; if the net initialisation
  succeeds and the cgroup initialisation fails, \<open>initParent\<close> calls \<open>exit(0xff)\<close> and the
  supervisor ends with status \<open>0xff\<close>.
\<close>

theorem runChild_setup_failure:
  assumes "limitConns_ok e" and "mode c \<noteq> MODE_STANDALONE_EXECVE" and "socketpair_ok e"
    and "fst (cloneProc e (clone_flags c) SIGCHLD w) = pid" and "0 < pid"
    and "pids c pid = None"
  shows "(\<not> net_init_ok e \<longrightarrow> fst (runChild e c w) = Returns (- 1)) \<and>
         (net_init_ok e \<and> cgroup_init_ok e c pid w \<and> \<not> user_init_ok e \<longrightarrow>
            fst (runChild e c w) = Returns (- 1)) \<and>
         (net_init_ok e \<and> \<not> cgroup_init_ok e c pid w \<longrightarrow> fst (runChild e c w) = Exits 0xff)"
  using runChild_cloned[OF assms(1-4) _ _ assms(6)] assms(5) by simp

text \<open>
  Claim C1 as stated fails: with \<open>cgroup_pids_max = 10\<close> and a \<open>mkdir\<close> that fails with
  \<open>EACCES\<close>, the cgroup initialisation for the cloned child 42 fails and \<open>runChild\<close> does
  not return: the supervisor exits with status \<open>0xff\<close>.
\<close>

theorem runChild_cgroup_failure_exits:
  "\<not> fst (initNsFromParent (conf0\<lparr>cgroup_pids_max := 10\<rparr>) 42 (world0\<lparr>mkdir_err := (\<lambda>_. EACCES)\<rparr>)) \<and>
   fst (runChild env0 (conf0\<lparr>cgroup_pids_max := 10\<rparr>) (world0\<lparr>mkdir_err := (\<lambda>_. EACCES)\<rparr>)) = Exits 0xff"
proof -
  let ?c = "conf0\<lparr>cgroup_pids_max := 10\<rparr>" and ?w = "world0\<lparr>mkdir_err := (\<lambda>_. EACCES)\<rparr>"
  have 1: "\<not> fst (initNsFromParent ?c 42 ?w)"
    by (simp add: init_eval conf0_def world0_def EACCES_def)
  have e: "limitConns_ok env0" "socketpair_ok env0" "net_init_ok env0"
    by (simp_all add: env0_def)
  have c: "mode ?c \<noteq> MODE_STANDALONE_EXECVE" "pids ?c 42 = None" "use_cgroupv2 ?c"
    by (simp_all add: conf0_def)
  have cl: "fst (cloneProc env0 (clone_flags ?c) SIGCHLD ?w) = 42"
    using cloneProc_env0[of id id env0] by simp
  have "\<not> cgroup_init_ok env0 ?c 42 ?w"
    using 1 c(3) by (simp add: cgroup_init_ok_def)
  then show ?thesis
    using runChild_cloned[OF e(1) c(1) e(2) cl _ _ c(2)] e(3) 1 by simp
qed

theorem runChild_setup_failure_witness:
  "fst (runChild (env0\<lparr>net_init_ok := False\<rparr>) conf0 world0) = Returns (- 1) \<and>
   fst (runChild (env0\<lparr>user_init_ok := False\<rparr>) conf0 world0) = Returns (- 1) \<and>
   fst (runChild env0 (conf0\<lparr>cgroup_pids_max := 10\<rparr>) (world0\<lparr>mkdir_err := (\<lambda>_. EACCES)\<rparr>)) = Exits 0xff"
proof -
  let ?c = "conf0\<lparr>cgroup_pids_max := 10\<rparr>" and ?w = "world0\<lparr>mkdir_err := (\<lambda>_. EACCES)\<rparr>"
  have e: "limitConns_ok env0" "socketpair_ok env0" "net_init_ok env0"
    by (simp_all add: env0_def)
  have c: "mode ?c \<noteq> MODE_STANDALONE_EXECVE" "pids ?c 42 = None" "use_cgroupv2 ?c"
    "mode conf0 \<noteq> MODE_STANDALONE_EXECVE" "pids conf0 42 = None" "use_cgroupv2 conf0"
    by (simp_all add: conf0_def)
  have cl: "fst (cloneProc env0 (clone_flags ?c) SIGCHLD ?w) = 42"
    "fst (cloneProc (env0\<lparr>net_init_ok := False\<rparr>) (clone_flags conf0) SIGCHLD world0) = 42"
    "fst (cloneProc (env0\<lparr>user_init_ok := False\<rparr>) (clone_flags conf0) SIGCHLD world0) = 42"
    using cloneProc_env0[of id id env0] cloneProc_env0[of "\<lambda>_. False" id "env0\<lparr>net_init_ok := False\<rparr>"]
      cloneProc_env0[of id "\<lambda>_. False" "env0\<lparr>user_init_ok := False\<rparr>"]
    by simp_all
  have bad: "\<not> cgroup_init_ok env0 ?c 42 ?w"
    by (simp add: cgroup_init_ok_def init_eval conf0_def world0_def EACCES_def)
  have good: "cgroup_init_ok (env0\<lparr>user_init_ok := False\<rparr>) conf0 42 world0"
    by (simp add: cgroup_init_ok_def init_eval conf0_def world0_def)
  have 1: "fst (runChild (env0\<lparr>net_init_ok := False\<rparr>) conf0 world0) = Returns (- 1)"
    using runChild_setup_failure[of "env0\<lparr>net_init_ok := False\<rparr>" conf0 world0 42] e c cl by simp
  have 2: "fst (runChild (env0\<lparr>user_init_ok := False\<rparr>) conf0 world0) = Returns (- 1)"
    using runChild_setup_failure[of "env0\<lparr>user_init_ok := False\<rparr>" conf0 world0 42] e c cl good
    by simp
  have 3: "fst (runChild env0 ?c ?w) = Exits 0xff"
    using runChild_setup_failure[of env0 ?c ?w 42] e c cl bad by simp
  show ?thesis
    using 1 2 3 by simp
qed

lemma cloneProc_CLONE_VM:
  assumes "flags AND CLONE_VM \<noteq> 0"
  shows "cloneProc e flags exit_signal w =
           (- 1, (logw LE ''Cannot use clone(flags & CLONE_VM)'' w)\<lparr>errno := 0\<rparr>)"
  using assms by (simp add: cloneProc_def Let_def)

text \<open>
  Claim C9, as amended. For every flag set that includes \<open>CLONE_VM\<close>, \<open>cloneProc\<close> makes
  no system call (so no process is created), returns -1 and sets \<open>errno\<close> to 0: the
  rejection is signalled by the return value alone, and \<open>errno\<close> holds no error number.
\<close>

theorem cloneProc_rejects_CLONE_VM:
  assumes "flags AND CLONE_VM \<noteq> 0"
  shows "fst (cloneProc e flags exit_signal w) = - 1 \<and>
         effects (trace (snd (cloneProc e flags exit_signal w))) = effects (trace w) \<and>
         errno (snd (cloneProc e flags exit_signal w)) = 0"
  by (simp add: cloneProc_CLONE_VM[OF assms] logw_def ev_def)

text \<open>
  Claim C9 as stated fails where it says that the error is signalled with the semantics of
  \<open>errno\<close>: called with \<open>CLONE_VM\<close> while \<open>errno\<close> is \<open>EBUSY\<close>, \<open>cloneProc\<close> returns -1
  and leaves \<open>errno = 0\<close>, which is no error.
\<close>

theorem cloneProc_CLONE_VM_errno_zero:
  "CLONE_VM AND CLONE_VM \<noteq> 0 \<and>
   fst (cloneProc env0 CLONE_VM SIGCHLD (world0\<lparr>errno := EBUSY\<rparr>)) = - 1 \<and>
   errno (snd (cloneProc env0 CLONE_VM SIGCHLD (world0\<lparr>errno := EBUSY\<rparr>))) = 0"
proof -
  have a: "CLONE_VM AND CLONE_VM \<noteq> 0"
    by (simp add: CLONE_VM_def)
  show ?thesis
    using a by (simp add: cloneProc_CLONE_VM[OF a])
qed

theorem cloneProc_rejects_CLONE_VM_witness:
  "(CLONE_VM OR CLONE_NEWNS) AND CLONE_VM \<noteq> 0 \<and>
   fst (cloneProc env0 (CLONE_VM OR CLONE_NEWNS) SIGCHLD world0) = - 1 \<and>
   effects (trace (snd (cloneProc env0 (CLONE_VM OR CLONE_NEWNS) SIGCHLD world0))) = [] \<and>
   errno (snd (cloneProc env0 (CLONE_VM OR CLONE_NEWNS) SIGCHLD world0)) = 0"
proof -
  have a: "(CLONE_VM OR CLONE_NEWNS) AND CLONE_VM \<noteq> 0"
    by (simp add: CLONE_VM_def CLONE_NEWNS_def)
  have b: "effects (trace world0) = []"
    by (simp add: world0_def)
  show ?thesis
    using cloneProc_rejects_CLONE_VM[OF a, of env0 SIGCHLD world0] a b by simp
qed

section \<open>Properties of the accounting parser\<close>

lemma parse_ll_nonconformant:
  assumes "nonconformant s"
  shows "\<exists>m. parse_ll sentinel what einval s = (if out_of_range s then sentinel else - 1, [Log LW m])"
  using assms
  by (auto simp: parse_ll_def strtoll_def nonconformant_def no_digits_def trailing_garbage_def
      out_of_range_def negative_def Let_def ERANGE_def EINVAL_def LLONG_MAX_def LLONG_MIN_def)

lemma parse_ll_conformant:
  assumes "\<not> nonconformant s"
  shows "parse_ll sentinel what einval s = (number_of s, [])"
  using assms
  by (auto simp: parse_ll_def strtoll_def nonconformant_def no_digits_def trailing_garbage_def
      out_of_range_def negative_def Let_def ERANGE_def EINVAL_def LLONG_MAX_def LLONG_MIN_def)

lemma system_not_user: "take 12 line = ''system_usec '' \<Longrightarrow> take 10 line \<noteq> ''user_usec ''"
proof
  assume a: "take 12 line = ''system_usec ''" and b: "take 10 line = ''user_usec ''"
  have "take 10 (take 12 line) = take 10 line"
    by simp
  with a b show False
    by simp
qed

lemma same_fs_evs [simp]: "same_fs w (evs l w') = same_fs w w'"
  by (auto simp: same_fs_def evs_def)

lemma read_memory_peak_same_fs: "same_fs w (snd (read_memory_peak p w))"
  by (auto simp: read_memory_peak_def sys_fopen_def Let_def same_fs_def ev_def evs_def logw_def
      split: prod.splits option.splits sum.splits if_splits)

lemma read_cpu_stat_same_fs:
  "same_fs w w' \<Longrightarrow> fst (read_cpu_stat p w') = fst (read_cpu_stat p w)"
  by (auto simp: read_cpu_stat_def sys_fopen_def file_content_def subtree_control_path_def
      Let_def same_fs_def split: prod.splits option.splits sum.splits)

lemma removeCgroup_stats:
  assumes "fst (read_memory_peak p w) = m" and "fst (read_cpu_stat p w) = (u, s, t)"
  shows "Stats t m u s \<in> set (trace (removeCgroup p w))"
proof -
  obtain w1 where 1: "read_memory_peak p w = (m, w1)"
    using assms(1) by (cases "read_memory_peak p w") auto
  then have "same_fs w w1"
    using read_memory_peak_same_fs[of w p] by simp
  then have "fst (read_cpu_stat p w1) = (u, s, t)"
    using read_cpu_stat_same_fs[of w w1 p] assms(2) by simp
  then obtain w2 where 2: "read_cpu_stat p w1 = ((u, s, t), w2)"
    by (cases "read_cpu_stat p w1") auto
  show ?thesis
    using 1 2 by (auto simp: removeCgroup_def sys_rmdir_def Let_def ev_def logw_def)
qed

lemma scan_one_line:
  assumes "content \<noteq> []" and "fgets_rest 256 content = []"
    and "cpu_stat_line einval (c_str (fgets_line 256 content)) (- 1) (- 1) = (u, s, l)"
  shows "scan_cpu_stat path einval content (- 1) (- 1) [] =
           (u, s, Fgets path # l @ (if u \<noteq> - 1 \<and> s \<noteq> - 1 then [] else [Fgets path]))"
  using assms
  by (subst scan_cpu_stat.simps) (simp add: Let_def scan_cpu_stat.simps[of _ _ "[]"])

lemmas str_defs = strtoll_def digits_of_def after_digits_def after_sign_def after_space_def
  has_minus_def number_of_def dec_value_def digit_val_def isdigit_def isspace_def

lemma big: "strtoll False (''9223372036854775808'' @ [CHR 0x0A]) = (LLONG_MAX, Some [CHR 0x0A], ERANGE)"
  by (simp add: str_defs LLONG_MAX_def LLONG_MIN_def)

lemma line1: "cpu_stat_line False (''user_usec 9223372036854775808'' @ [CHR 0x0A]) (- 1) (- 1) =
   (- 2, - 1, [Log LW ''user_usec: value out of range''])"
  by (simp add: cpu_stat_line_def parse_ll_def big[simplified])

lemma scan1:
  "scan_cpu_stat path False (''user_usec 9223372036854775808'' @ [CHR 0x0A]) (- 1) (- 1) [] =
     (- 2, - 1, [Fgets path, Log LW ''user_usec: value out of range'', Fgets path])"
  using scan_one_line[of "''user_usec 9223372036854775808'' @ [CHR 0x0A]" False "- 2" "- 1"
      "[Log LW ''user_usec: value out of range'']" path]
  by (simp add: fgets_rest_def fgets_line_def fgets_len_def c_str_def Let_def line1[simplified])

lemma cpu1: "fst (read_cpu_stat ''/sys/fs/cgroup/NSJAIL.42'' world_stat) = (- 2, - 1, - 1)"
  by (simp add: read_cpu_stat_def sys_fopen_def file_content_def subtree_control_path_def
      world_stat_def world0_def Let_def scan1[simplified])

lemma mem1: "fst (read_memory_peak ''/sys/fs/cgroup/NSJAIL.42'' world_stat) = - 1"
  by (simp add: read_memory_peak_def sys_fopen_def file_content_def subtree_control_path_def
      world_stat_def world0_def Let_def fgets_line_def fgets_len_def c_str_def parse_ll_def
      str_defs)

text \<open>
  Claim C4, as amended. For the three accounting values parsed during the teardown, a
  non-conformant input (no digit after optional white space and sign, which includes an
  empty value; something other than white space after the number; a number out of the
  range of \<open>long long\<close>; a negative number) is logged with a warning and yields -1, but
  for one case: a \<open>user_usec\<close> value out of range yields -2. For \<open>memory.peak\<close> the input
  is the first line of the file (at most 63 bytes), read by the one \<open>fgets\<close> between the
  \<open>fopen\<close> and the \<open>fclose\<close>, and an empty file yields -1 with a warning too; for \<open>user_usec\<close> and \<open>system_usec\<close> it is what follows the key on the
  first line of \<open>cpu.stat\<close> that starts with it.
\<close>

theorem accounting_parse_nonconformant:
  "(file_content w (p @ ''/memory.peak'') = Some content \<and> open_err w (p @ ''/memory.peak'') = 0 \<and>
    \<not> read_err w (p @ ''/memory.peak'') \<and>
    (content = [] \<or> nonconformant (c_str (fgets_line 64 content))) \<longrightarrow>
      fst (read_memory_peak p w) = - 1 \<and>
      (\<exists>m. trace (snd (read_memory_peak p w)) =
             trace w @ [Fopen (p @ ''/memory.peak''), Fgets (p @ ''/memory.peak''), Log LW m,
                        Fclose (p @ ''/memory.peak'')])) \<and>
   (take 10 line = ''user_usec '' \<and> nonconformant (drop 10 line) \<longrightarrow>
      (\<exists>m. cpu_stat_line einval line (- 1) sys =
             (if out_of_range (drop 10 line) then - 2 else - 1, sys, [Log LW m]))) \<and>
   (take 12 line = ''system_usec '' \<and> nonconformant (drop 12 line) \<longrightarrow>
      (\<exists>m. cpu_stat_line einval line usr (- 1) = (usr, - 1, [Log LW m])))"
proof (intro conjI impI)
  assume a: "file_content w (p @ ''/memory.peak'') = Some content \<and> open_err w (p @ ''/memory.peak'') = 0 \<and>
    \<not> read_err w (p @ ''/memory.peak'') \<and>
    (content = [] \<or> nonconformant (c_str (fgets_line 64 content)))"
  show "fst (read_memory_peak p w) = - 1"
  proof (cases "content = []")
    case True
    then show ?thesis using a
      by (simp add: read_memory_peak_def sys_fopen_def Let_def)
  next
    case False
    with a have n: "nonconformant (c_str (fgets_line 64 content))" by simp
    from parse_ll_nonconformant[OF n, of "- 1" "''memory.peak''" "strtoll_einval w"]
    show ?thesis using a False
      by (auto simp: read_memory_peak_def sys_fopen_def Let_def split: prod.splits)
  qed
  show "\<exists>m. trace (snd (read_memory_peak p w)) =
          trace w @ [Fopen (p @ ''/memory.peak''), Fgets (p @ ''/memory.peak''), Log LW m,
                     Fclose (p @ ''/memory.peak'')]"
  proof (cases "content = []")
    case True
    then show ?thesis using a
      by (simp add: read_memory_peak_def sys_fopen_def Let_def logw_def ev_def)
  next
    case False
    with a have n: "nonconformant (c_str (fgets_line 64 content))" by simp
    from parse_ll_nonconformant[OF n, of "- 1" "''memory.peak''" "strtoll_einval w"]
    show ?thesis using a False
      by (auto simp: read_memory_peak_def sys_fopen_def Let_def logw_def ev_def evs_def split: prod.splits)
  qed
next
  assume a: "take 10 line = ''user_usec '' \<and> nonconformant (drop 10 line)"
  then have n: "nonconformant (drop 10 line)" by simp
  from parse_ll_nonconformant[OF n, of "- 2" "''user_usec''" einval]
  show "\<exists>m. cpu_stat_line einval line (- 1) sys =
             (if out_of_range (drop 10 line) then - 2 else - 1, sys, [Log LW m])"
    using a by (auto simp: cpu_stat_line_def Let_def)
next
  assume a: "take 12 line = ''system_usec '' \<and> nonconformant (drop 12 line)"
  then have n: "nonconformant (drop 12 line)" by simp
  from parse_ll_nonconformant[OF n, of "- 1" "''system_usec''" einval]
  show "\<exists>m. cpu_stat_line einval line usr (- 1) = (usr, - 1, [Log LW m])"
    using a system_not_user[of line] by (auto simp: cpu_stat_line_def Let_def)
qed

text \<open>
  Claim C4 as stated fails: the \<open>user_usec\<close> value \<open>9223372036854775808\<close> is out of range
  and yields -2, not -1, and -2 is what the statistics line of \<open>removeCgroup\<close> reports
  for it.
\<close>

theorem user_usec_out_of_range:
  "out_of_range (''9223372036854775808'' @ [CHR 0x0A]) \<and>
   cpu_stat_line False (''user_usec 9223372036854775808'' @ [CHR 0x0A]) (- 1) (- 1) =
     (- 2, - 1, [Log LW ''user_usec: value out of range'']) \<and>
   Stats (- 1) (- 1) (- 2) (- 1) \<in> set (trace (removeCgroup ''/sys/fs/cgroup/NSJAIL.42'' world_stat))"
proof -
  have "out_of_range (''9223372036854775808'' @ [CHR 0x0A])"
    by (simp add: out_of_range_def str_defs LLONG_MAX_def)
  then show ?thesis
    using line1 removeCgroup_stats[OF mem1 cpu1] by simp
qed

theorem accounting_parse_nonconformant_witness:
  "nonconformant (c_str (fgets_line 64 (''abc'' @ [CHR 0x0A]))) \<and>
   fst (read_memory_peak ''/sys/fs/cgroup/NSJAIL.42'' world_stat) = - 1 \<and>
   nonconformant (drop 10 (''user_usec 12x'' @ [CHR 0x0A])) \<and>
   fst (cpu_stat_line False (''user_usec 12x'' @ [CHR 0x0A]) (- 1) 7) = - 1 \<and>
   nonconformant (drop 12 (''system_usec -5'' @ [CHR 0x0A])) \<and>
   fst (snd (cpu_stat_line False (''system_usec -5'' @ [CHR 0x0A]) 7 (- 1))) = - 1"
proof -
  have n: "nonconformant (c_str (fgets_line 64 (''abc'' @ [CHR 0x0A])))"
    "nonconformant (drop 10 (''user_usec 12x'' @ [CHR 0x0A]))"
    "\<not> out_of_range (drop 10 (''user_usec 12x'' @ [CHR 0x0A]))"
    "nonconformant (drop 12 (''system_usec -5'' @ [CHR 0x0A]))"
    by (simp_all add: nonconformant_def no_digits_def trailing_garbage_def negative_def
        out_of_range_def str_defs fgets_line_def fgets_len_def c_str_def LLONG_MAX_def LLONG_MIN_def)
  have f: "file_content world_stat (''/sys/fs/cgroup/NSJAIL.42'' @ ''/memory.peak'') = Some (''abc'' @ [CHR 0x0A])"
    "open_err world_stat (''/sys/fs/cgroup/NSJAIL.42'' @ ''/memory.peak'') = 0"
    "\<not> read_err world_stat (''/sys/fs/cgroup/NSJAIL.42'' @ ''/memory.peak'')"
    by (simp_all add: file_content_def subtree_control_path_def world_stat_def world0_def)
  have t: "take 10 (''user_usec 12x'' @ [CHR 0x0A]) = ''user_usec ''"
    "take 12 (''system_usec -5'' @ [CHR 0x0A]) = ''system_usec ''"
    by simp_all
  note A = accounting_parse_nonconformant[of world_stat "''/sys/fs/cgroup/NSJAIL.42''"
      "''abc'' @ [CHR 0x0A]" "''user_usec 12x'' @ [CHR 0x0A]" False 7]
  have 1: "fst (read_memory_peak ''/sys/fs/cgroup/NSJAIL.42'' world_stat) = - 1"
    using A[THEN conjunct1] f n(1) by blast
  have 2: "fst (cpu_stat_line False (''user_usec 12x'' @ [CHR 0x0A]) (- 1) 7) = - 1"
    using A[THEN conjunct2, THEN conjunct1] t(1) n(2,3) by auto
  have 3: "fst (snd (cpu_stat_line False (''system_usec -5'' @ [CHR 0x0A]) 7 (- 1))) = - 1"
    using accounting_parse_nonconformant[of world_stat "''/sys/fs/cgroup/NSJAIL.42''"
      "''abc'' @ [CHR 0x0A]" "''system_usec -5'' @ [CHR 0x0A]" False 7 7, THEN conjunct2, THEN conjunct2]
      t(2) n(4) by auto
  show ?thesis
    using n 1 2 3 by simp
qed

section \<open>The teardown at the reap\<close>


lemma ll_add_wraps: "ll_add LLONG_MAX 1 = LLONG_MIN"
  by (simp add: ll_add_def LLONG_MIN_def LLONG_MAX_def)

lemma readable_log [simp]:
  "readable (logw l m w) p content = readable w p content"
  "readable (ev x w) p content = readable w p content"
  by (simp_all add: readable_def file_content_def subtree_control_path_def logw_def ev_def)










section \<open>Properties of \<open>cgroup2::setup\<close>\<close>

lemma writes_of_Fopen [simp]: "writes_of (Fopen q # es) = writes_of es"
  by (simp add: writes_of_def map_filter_def)

lemma readFromFile_readable:
  "readable w p content \<Longrightarrow> readFromFile p n w = (Some (take n content), ev (Fopen p) w)"
  by (simp add: readable_def readFromFile_def sys_fopen_def Let_def)

lemma readFromFile_Some:
  "readFromFile p n w = (Some b, w1) \<Longrightarrow> \<exists>content. readable w p content \<and> b = take n content \<and> w1 = ev (Fopen p) w"
  by (auto simp: readable_def readFromFile_def sys_fopen_def Let_def split: option.splits if_splits)

lemma setup_alt:
  "cgroup2_setup c w =
     (case readFromFile (cgroupv2_mount c @ ''/cgroup.subtree_control'') 63 w of
        (None, w1) \<Rightarrow> (False, logw LW ''cgroupv2 setup: Could not read root subtree_control'' w1)
      | (Some content, w1) \<Rightarrow>
          if controllers_listed c (c_str content) then (True, w1) else enable_needed c w1)"
  by (simp add: cgroup2_setup_def controllers_listed_def enable_needed_def Let_def
      SUBTREE_CONTROL_BUF_LEN_def split: prod.splits option.splits)

lemma setup_listed:
  assumes "readable w (cgroupv2_mount c @ ''/cgroup.subtree_control'') content"
    and "controllers_listed c (c_str (take 63 content))"
  shows "cgroup2_setup c w = (True, ev (Fopen (cgroupv2_mount c @ ''/cgroup.subtree_control'')) w)"
  using assms(2) by (simp add: setup_alt readFromFile_readable[OF assms(1)])

lemma healthy_ev [simp]: "healthy (ev x w) = healthy w"
  by (simp add: healthy_def ev_def)

lemma oks_enable:
  "oks (enableCgroupSubtree c ctrl pid) [(cgroupv2_mount c @ ''/cgroup.subtree_control'', ''+'' @ ctrl)]"
  unfolding oks_def
proof (intro allI impI)
  fix w
  assume "healthy w"
  then have "healthy (logw LD ''Enable cgroup.subtree_control'' w)"
    by simp
  from ok_write[OF this, of "cgroupv2_mount c @ ''/cgroup.subtree_control''" "''+'' @ ctrl" False]
  show "ok_step (enableCgroupSubtree c ctrl pid w) w
          [(cgroupv2_mount c @ ''/cgroup.subtree_control'', ''+'' @ ctrl)]"
    by (auto simp: ok_step_def enableCgroupSubtree_def Let_def logw_def ev_def split: prod.splits)
qed

lemma oks_enable_needed: "oks (enable_needed c) (needed_writes c)"
proof -
  have e: "oks (\<lambda>w. if b then enableCgroupSubtree c ctrl (self_pid w) w else (True, w))
             (if b then [(cgroupv2_mount c @ ''/cgroup.subtree_control'', ''+'' @ ctrl)] else [])" for b ctrl
    using oks_enable[of c ctrl] by (auto simp: oks_def ok_step_def)
  have "oks (\<lambda>w1. enable_needed c w1) (needed_writes c)"
    unfolding needed_writes_def enable_needed_def Let_def
    by (rule oks_rof[OF e oks_rof[OF e oks_rof[OF e oks_True]]]) auto
  then show ?thesis
    by simp
qed

lemma setup_missing:
  assumes "readable w (cgroupv2_mount c @ ''/cgroup.subtree_control'') content"
    and "\<not> controllers_listed c (c_str (take 63 content))" and "healthy w"
  shows "fst (cgroup2_setup c w) \<and>
         writes_of (trace (snd (cgroup2_setup c w))) = writes_of (trace w) @ needed_writes c"
proof -
  let ?w1 = "ev (Fopen (cgroupv2_mount c @ ''/cgroup.subtree_control'')) w"
  have eq: "cgroup2_setup c w = enable_needed c ?w1"
    using assms(2) by (simp add: setup_alt readFromFile_readable[OF assms(1)])
  have "healthy ?w1"
    using assms(3) by simp
  then have "ok_step (enable_needed c ?w1) ?w1 (needed_writes c)"
    using oks_enable_needed[of c] by (simp add: oks_def)
  then show ?thesis
    by (simp add: eq ok_step_def ev_def)
qed

lemma grows_refl [simp]: "grows w w"
  by (simp add: grows_def)

lemma grows_trans: "grows a b \<Longrightarrow> grows b c \<Longrightarrow> grows a c"
  by (auto simp: grows_def)

lemma grows_log [simp]:
  "grows w (logw l m w') = grows w w'" "grows w (ev x w') = grows w w'"
  "grows (logw l m w) w' = grows w w'" "grows (ev x w) w' = grows w w'"
  by (auto simp: grows_def logw_def ev_def)

lemma grows_write: "grows w (snd (writeBufToFile p d l w))"
  by (auto simp: grows_def writeBufToFile_def store_def subtree_control_path_def Let_def ev_def
      logw_def split: list.splits)

lemma write_enables:
  assumes "writeBufToFile (cg_root w @ ''/cgroup.subtree_control'') (''+'' @ ctrl) l w = (True, w')"
  shows "ctrl \<in> set (subtree w')"
  using assms
  by (auto simp: writeBufToFile_def store_def subtree_control_path_def Let_def ev_def logw_def
      split: list.splits if_splits)

lemma grows_createCgroup: "grows w (snd (createCgroup p pid w))"
  by (auto simp: grows_def createCgroup_def sys_mkdir_def Let_def ev_def logw_def)

lemma grows_addPid: "grows w (snd (addPidToProcList p pid w))"
  using grows_write[of "logw LD ''Adding pid to cgroup.procs'' w" "p @ ''/cgroup.procs''" "to_string pid" True]
  by (auto simp: addPidToProcList_def Let_def split: prod.splits)

lemma grows_moveSelf: "grows w (snd (moveSelfIntoChildCgroup c w))"
proof -
  let ?p = "getJailCgroupPath c w"
  let ?w1 = "logw LI ''nsjail is moving itself to a new child cgroup'' w"
  have 1: "grows w (snd (createCgroup ?p (self_pid ?w1) ?w1))"
    using grows_createCgroup[of ?w1 ?p "self_pid ?w1"] by simp
  have 2: "grows w (snd (addPidToProcList ?p 0 (snd (createCgroup ?p (self_pid ?w1) ?w1))))"
    using grows_trans[OF 1 grows_addPid] .
  show ?thesis
    using 1 2 by (simp add: moveSelfIntoChildCgroup_def RETURN_ON_FAILURE_def Let_def)
qed

lemma enable_grows: "grows w (snd (enableCgroupSubtree c ctrl pid w))"
proof -
  let ?p = "cgroupv2_mount c @ ''/cgroup.subtree_control''"
  let ?w1 = "logw LD ''Enable cgroup.subtree_control'' w"
  let ?w2 = "snd (writeBufToFile ?p (''+'' @ ctrl) False ?w1)"
  let ?w3 = "snd (moveSelfIntoChildCgroup c ?w2)"
  let ?w4 = "snd (writeBufToFile ?p (''+'' @ ctrl) True ?w3)"
  have 2: "grows w ?w2"
    using grows_write[of ?w1 ?p "''+'' @ ctrl" False] by simp
  have 3: "grows w ?w3"
    using grows_trans[OF 2 grows_moveSelf] .
  have 4: "grows w ?w4"
    using grows_trans[OF 3 grows_write] .
  show ?thesis
    using 2 3 4
    by (auto simp: enableCgroupSubtree_def RETURN_ON_FAILURE_def Let_def split: prod.splits)
qed

lemma enable_success:
  assumes "cgroupv2_mount c = cg_root w" and "fst (enableCgroupSubtree c ctrl pid w)"
  shows "ctrl \<in> set (subtree (snd (enableCgroupSubtree c ctrl pid w)))"
proof -
  let ?p = "cg_root w @ ''/cgroup.subtree_control''"
  let ?w1 = "logw LD ''Enable cgroup.subtree_control'' w"
  obtain ok1 w2 where a: "writeBufToFile ?p (''+'' @ ctrl) False ?w1 = (ok1, w2)"
    by (cases "writeBufToFile ?p (''+'' @ ctrl) False ?w1") auto
  show ?thesis
  proof (cases ok1)
    case True
    then have "ctrl \<in> set (subtree w2)"
      using write_enables[of ?w1 ctrl False w2] a by (simp add: logw_def ev_def)
    then show ?thesis
      using a True assms(1) by (simp add: enableCgroupSubtree_def Let_def)
  next
    case False
    have g2: "grows w w2"
      using grows_write[of ?w1 ?p "''+'' @ ctrl" False] a by simp
    obtain ok3 w3 where b: "moveSelfIntoChildCgroup c w2 = (ok3, w3)"
      by (cases "moveSelfIntoChildCgroup c w2") auto
    have g3: "grows w w3"
      using grows_trans[OF g2 grows_moveSelf[of w2 c]] b by simp
    obtain ok4 w4 where d: "writeBufToFile ?p (''+'' @ ctrl) True w3 = (ok4, w4)"
      by (cases "writeBufToFile ?p (''+'' @ ctrl) True w3") auto
    have r: "cg_root w3 = cg_root w"
      using g3 by (simp add: grows_def)
    from assms(2) a False b d assms(1)
    have "ok4 \<and> enableCgroupSubtree c ctrl pid w = (True, w4)"
      by (auto simp: enableCgroupSubtree_def RETURN_ON_FAILURE_def Let_def split: if_splits)
    moreover from this have "ctrl \<in> set (subtree w4)"
      using write_enables[of w3 ctrl True w4] d r by simp
    ultimately show ?thesis
      by simp
  qed
qed

lemma enable_if_success:
  assumes "cgroupv2_mount c = cg_root w"
    and "fst (if b then enableCgroupSubtree c ctrl pid w else (True, w))"
  shows "grows w (snd (if b then enableCgroupSubtree c ctrl pid w else (True, w))) \<and>
         (b \<longrightarrow> ctrl \<in> set (subtree (snd (if b then enableCgroupSubtree c ctrl pid w else (True, w)))))"
  using assms enable_grows[of w c ctrl pid] enable_success[of c w ctrl pid] by auto

lemma enable_needed_success:
  assumes m: "cgroupv2_mount c = cg_root w" and ok: "fst (enable_needed c w)"
  shows "grows w (snd (enable_needed c w)) \<and>
         (needMemoryController c \<longrightarrow> ''memory'' \<in> set (subtree (snd (enable_needed c w)))) \<and>
         (needPidsController c \<longrightarrow> ''pids'' \<in> set (subtree (snd (enable_needed c w)))) \<and>
         (needCpuController c \<longrightarrow> ''cpu'' \<in> set (subtree (snd (enable_needed c w))))"
proof -
  define r1 where "r1 =
    (if needMemoryController c then enableCgroupSubtree c ''memory'' (self_pid w) w else (True, w))"
  define w2 where "w2 = snd r1"
  define r2 where "r2 =
    (if needPidsController c then enableCgroupSubtree c ''pids'' (self_pid w2) w2 else (True, w2))"
  define w3 where "w3 = snd r2"
  define r3 where "r3 =
    (if needCpuController c then enableCgroupSubtree c ''cpu'' (self_pid w3) w3 else (True, w3))"
  define w4 where "w4 = snd r3"
  have f: "fst r1 \<and> fst r2 \<and> fst r3 \<and> snd (enable_needed c w) = w4"
    using ok unfolding r1_def w2_def r2_def w3_def r3_def w4_def
    by (simp add: enable_needed_def RETURN_ON_FAILURE_def split: if_splits)
  have 1: "grows w w2" "needMemoryController c \<longrightarrow> ''memory'' \<in> set (subtree w2)"
    using enable_if_success[OF m, of "needMemoryController c" "''memory''" "self_pid w"] f
    unfolding r1_def w2_def by blast+
  then have m2: "cgroupv2_mount c = cg_root w2"
    using m by (simp add: grows_def)
  have 2: "grows w2 w3" "needPidsController c \<longrightarrow> ''pids'' \<in> set (subtree w3)"
    using enable_if_success[OF m2, of "needPidsController c" "''pids''" "self_pid w2"] f
    unfolding r2_def w3_def by blast+
  then have m3: "cgroupv2_mount c = cg_root w3"
    using m2 by (simp add: grows_def)
  have 3: "grows w3 w4" "needCpuController c \<longrightarrow> ''cpu'' \<in> set (subtree w4)"
    using enable_if_success[OF m3, of "needCpuController c" "''cpu''" "self_pid w3"] f
    unfolding r3_def w4_def by blast+
  have g: "grows w w4"
    using grows_trans[OF grows_trans[OF 1(1) 2(1)] 3(1)] .
  have s: "set (subtree w2) \<subseteq> set (subtree w4)" "set (subtree w3) \<subseteq> set (subtree w4)"
    using 2(1) 3(1) by (auto simp: grows_def)
  have "snd (enable_needed c w) = w4"
    using f by simp
  then show ?thesis
    using g 1(2) 2(2) 3(2) s by blast
qed

lemma strstr_self: "strstr (n @ r) n"
proof (cases "n @ r")
  case Nil
  then show ?thesis by simp
next
  case (Cons a l)
  have "take (length n) (n @ r) = n"
    by simp
  then have "take (length n) (a # l) = n"
    using Cons by simp
  then show ?thesis
    using Cons by simp
qed

lemma strstr_later: "strstr r n \<Longrightarrow> strstr (a @ r) n"
  by (induction a) auto

lemma strstr_render: "ctrl \<in> set names \<Longrightarrow> strstr (render_subtree names) ctrl"
proof (induction names rule: render_subtree.induct)
  case 1
  then show ?case by simp
next
  case (2 c)
  then show ?case using strstr_self[of ctrl "[CHR 0x0A]"] by simp
next
  case (3 c d cs)
  show ?case
  proof (cases "ctrl = c")
    case True
    then show ?thesis
      using strstr_self[of c "CHR '' '' # render_subtree (d # cs)"] by simp
  next
    case False
    then have "strstr (render_subtree (d # cs)) ctrl"
      using 3 by simp
    then show ?thesis
      using strstr_later[of "render_subtree (d # cs)" ctrl "c @ '' ''"] by simp
  qed
qed

lemma fits_buf:
  "subtree_fits w \<Longrightarrow> c_str (take 63 (render_subtree (subtree w))) = render_subtree (subtree w)"
  by (auto simp: subtree_fits_def c_str_def)

lemma setup_again:
  assumes m: "cgroupv2_mount c = cg_root w" and ok: "fst (cgroup2_setup c w)"
    and fits: "subtree_fits (snd (cgroup2_setup c w))"
  shows "cgroup2_setup c (snd (cgroup2_setup c w)) =
           (True, ev (Fopen (cgroupv2_mount c @ ''/cgroup.subtree_control'')) (snd (cgroup2_setup c w)))"
proof -
  let ?p = "cgroupv2_mount c @ ''/cgroup.subtree_control''"
  let ?w1 = "snd (cgroup2_setup c w)"
  obtain b wr where rd: "readFromFile ?p 63 w = (Some b, wr)"
    using ok by (cases "readFromFile ?p 63 w") (auto simp: setup_alt split: option.splits)
  then obtain content where r: "readable w ?p content" "b = take 63 content" "wr = ev (Fopen ?p) w"
    using readFromFile_Some by blast
  have pw: "?p = subtree_control_path w"
    using m by (simp add: subtree_control_path_def)
  have content: "content = render_subtree (subtree w)"
    using r(1) m by (simp add: readable_def file_content_def subtree_control_path_def)
  show ?thesis
  proof (cases "controllers_listed c (c_str b)")
    case True
    then have w1: "?w1 = ev (Fopen ?p) w"
      using rd r by (simp add: setup_alt)
    have "readable ?w1 ?p content"
      using r(1) m by (auto simp: w1 readable_def file_content_def subtree_control_path_def ev_def)
    then show ?thesis
      using True r(2) by (simp add: setup_listed)
  next
    case False
    then have w1: "cgroup2_setup c w = enable_needed c (ev (Fopen ?p) w)"
      using rd r by (simp add: setup_alt)
    have m': "cgroupv2_mount c = cg_root (ev (Fopen ?p) w)"
      using m by (simp add: ev_def)
    from enable_needed_success[OF m'] ok w1
    have g: "grows w ?w1"
      and n: "needMemoryController c \<longrightarrow> ''memory'' \<in> set (subtree ?w1)"
        "needPidsController c \<longrightarrow> ''pids'' \<in> set (subtree ?w1)"
        "needCpuController c \<longrightarrow> ''cpu'' \<in> set (subtree ?w1)"
      by simp_all
    have rd1: "readable ?w1 ?p (render_subtree (subtree ?w1))"
      using g r(1) m
      by (simp add: readable_def file_content_def subtree_control_path_def grows_def)
    have "controllers_listed c (c_str (take 63 (render_subtree (subtree ?w1))))"
      using n strstr_render by (simp add: fits_buf[OF fits] controllers_listed_def)
    then show ?thesis
      using setup_listed[OF rd1] by simp
  qed
qed

text \<open>
  Claim C7, as amended. When \<open>cgroup.subtree_control\<close> can be read: if the name of every
  needed controller occurs in its first 63 bytes, \<open>setup\<close> succeeds and writes nothing;
  if the name of some needed controller does not, \<open>setup\<close> writes \<open>+name\<close> for every
  needed controller, also for those whose name occurs already, in the order memory,
  pids, cpu (in a world where no write fails). A second \<open>setup\<close> after a successful one on
  the mounted hierarchy, whose \<open>cgroup.subtree_control\<close> then fits the buffer, succeeds
  and writes nothing.
\<close>

theorem setup_subtree_writes:
  assumes "readable w (cgroupv2_mount c @ ''/cgroup.subtree_control'') content"
  shows
    "(controllers_listed c (c_str (take 63 content)) \<longrightarrow>
        fst (cgroup2_setup c w) \<and>
        writes_of (trace (snd (cgroup2_setup c w))) = writes_of (trace w)) \<and>
     (\<not> controllers_listed c (c_str (take 63 content)) \<and> healthy w \<longrightarrow>
        fst (cgroup2_setup c w) \<and>
        writes_of (trace (snd (cgroup2_setup c w))) = writes_of (trace w) @ needed_writes c) \<and>
     (cgroupv2_mount c = cg_root w \<and> fst (cgroup2_setup c w) \<and>
      subtree_fits (snd (cgroup2_setup c w)) \<longrightarrow>
        fst (cgroup2_setup c (snd (cgroup2_setup c w))) \<and>
        writes_of (trace (snd (cgroup2_setup c (snd (cgroup2_setup c w))))) =
          writes_of (trace (snd (cgroup2_setup c w))))"
  using setup_listed[OF assms] setup_missing[OF assms] setup_again[of c w]
  by (simp add: ev_def)

lemma conf_mp_needs:
  "needMemoryController conf_mp" "needPidsController conf_mp" "\<not> needCpuController conf_mp"
  "cgroupv2_mount conf_mp = ''/sys/fs/cgroup''"
  by (simp_all add: conf_mp_def conf0_def needMemoryController_def needPidsController_def
      needCpuController_def)

lemma world_mem_readable:
  "readable world_mem (cgroupv2_mount conf_mp @ ''/cgroup.subtree_control'') (''memory'' @ [CHR 0x0A])"
  "healthy world_mem" "cg_root world_mem = ''/sys/fs/cgroup''"
  by (simp_all add: readable_def file_content_def subtree_control_path_def world_mem_def
      world0_def conf_mp_needs healthy_def)

lemma world_mem_listed:
  "strstr (c_str (take 63 (''memory'' @ [CHR 0x0A]))) ''memory''"
  "\<not> controllers_listed conf_mp (c_str (take 63 (''memory'' @ [CHR 0x0A])))"
  by (simp_all add: controllers_listed_def conf_mp_needs c_str_def)

text \<open>
  Claim C7 as stated fails: when the memory and the pids controllers are needed and
  \<open>cgroup.subtree_control\<close> lists \<open>memory\<close> only, \<open>setup\<close> writes \<open>+memory\<close>, for a
  controller that is not missing, and then \<open>+pids\<close>.
\<close>

theorem setup_rewrites_present_controller:
  "strstr (c_str (take 63 (render_subtree (subtree world_mem)))) ''memory'' \<and>
   writes_of (trace (snd (cgroup2_setup conf_mp world_mem))) =
     [(''/sys/fs/cgroup/cgroup.subtree_control'', ''+memory''),
      (''/sys/fs/cgroup/cgroup.subtree_control'', ''+pids'')]"
proof -
  have "writes_of (trace world_mem) = []"
    by (simp add: world_mem_def world0_def)
  moreover have "render_subtree (subtree world_mem) = ''memory'' @ [CHR 0x0A]"
    by (simp add: world_mem_def)
  ultimately show ?thesis
    using setup_missing[OF world_mem_readable(1) world_mem_listed(2) world_mem_readable(2)]
      world_mem_listed(1)
    by (simp add: needed_writes_def conf_mp_needs Let_def)
qed

lemma setup_mp_eq:
  "cgroup2_setup conf_mp world_mem =
     enable_needed conf_mp (ev (Fopen ''/sys/fs/cgroup/cgroup.subtree_control'') world_mem)"
  using world_mem_listed(2)
  by (simp add: setup_alt conf_mp_needs(4)
      readFromFile_readable[OF world_mem_readable(1), simplified conf_mp_needs(4), simplified])

lemma subtree_after:
  "subtree (snd (cgroup2_setup conf_mp world_mem)) = [''memory'', ''pids'']"
  by (subst setup_mp_eq)
     (simp add: enable_needed_def conf_mp_needs RETURN_ON_FAILURE_def
      enableCgroupSubtree_def writeBufToFile_def store_def subtree_control_path_def Let_def
      logw_def ev_def world_mem_def world0_def)

theorem setup_subtree_writes_witness:
  "controllers_listed conf_mp (c_str (take 63 (render_subtree [''memory'', ''pids'']))) \<and>
   writes_of (trace (snd (cgroup2_setup conf_mp (world_mem\<lparr>subtree := [''memory'', ''pids'']\<rparr>)))) = [] \<and>
   \<not> controllers_listed conf_mp (c_str (take 63 (render_subtree [''memory'']))) \<and>
   writes_of (trace (snd (cgroup2_setup conf_mp world_mem))) =
     [(''/sys/fs/cgroup/cgroup.subtree_control'', ''+memory''),
      (''/sys/fs/cgroup/cgroup.subtree_control'', ''+pids'')] \<and>
   writes_of (trace (snd (cgroup2_setup conf_mp (snd (cgroup2_setup conf_mp world_mem))))) =
     writes_of (trace (snd (cgroup2_setup conf_mp world_mem)))"
proof -
  let ?w2 = "world_mem\<lparr>subtree := [''memory'', ''pids'']\<rparr>"
  have r2: "readable ?w2 (cgroupv2_mount conf_mp @ ''/cgroup.subtree_control'')
              (render_subtree [''memory'', ''pids''])"
    by (simp add: readable_def file_content_def subtree_control_path_def world_mem_def
        world0_def conf_mp_needs)
  have l2: "controllers_listed conf_mp (c_str (take 63 (render_subtree [''memory'', ''pids''])))"
    by (simp add: controllers_listed_def conf_mp_needs c_str_def)
  have t: "writes_of (trace ?w2) = []" "writes_of (trace world_mem) = []"
    by (simp_all add: world_mem_def world0_def)
  have 1: "writes_of (trace (snd (cgroup2_setup conf_mp ?w2))) = []"
    using setup_subtree_writes[OF r2] l2 t by simp
  have l1: "\<not> controllers_listed conf_mp (c_str (take 63 (render_subtree [''memory''])))"
    using world_mem_listed(2) by simp
  have r1: "readable world_mem (cgroupv2_mount conf_mp @ ''/cgroup.subtree_control'')
              (render_subtree [''memory''])"
    using world_mem_readable(1) by simp
  have 2: "fst (cgroup2_setup conf_mp world_mem) \<and>
      writes_of (trace (snd (cgroup2_setup conf_mp world_mem))) =
        [(''/sys/fs/cgroup/cgroup.subtree_control'', ''+memory''),
         (''/sys/fs/cgroup/cgroup.subtree_control'', ''+pids'')]"
    using setup_subtree_writes[OF r1] l1 world_mem_readable(2) t
    by (simp add: needed_writes_def conf_mp_needs Let_def)
  have f: "subtree_fits (snd (cgroup2_setup conf_mp world_mem))"
    by (simp add: subtree_fits_def subtree_after)
  have 3: "writes_of (trace (snd (cgroup2_setup conf_mp (snd (cgroup2_setup conf_mp world_mem))))) =
     writes_of (trace (snd (cgroup2_setup conf_mp world_mem)))"
    using setup_subtree_writes[OF r1] 2 f world_mem_readable(3) conf_mp_needs(4) by simp
  show ?thesis
    using l2 1 l1 2 3 by simp
qed

end
